theory Spec2Isabelle
  imports Main "HOL-Library.Word" "HOL-Library.Multiset"
begin

unbundle bit_operations_syntax

text \<open>
  A shallow embedding of two packages of the Lenovo Legion Toolkit helper: \<open>modes\<close>, the
  rotation through the power modes, and \<open>toast\<close>, the on-screen overlay that reports a
  mode change. The overlay is a sequence of calls into user32 and gdi32; the embedding
  keeps every call the program makes as an event, takes every value the OS returns as an
  input, and runs the program against a small model of the window manager.
\<close>

section \<open>Power-mode rotation (package modes)\<close>

text \<open>
  \<^verbatim>\<open>type PowerMode string\<close> with the four named constants of the package.
\<close>

type_synonym PowerMode = string

definition Quiet :: PowerMode where "Quiet = ''quiet''"
definition Balance :: PowerMode where "Balance = ''balance''"
definition Performance :: PowerMode where "Performance = ''performance''"
definition GodMode :: PowerMode where "GodMode = ''godmode''"

record Manager =
  sequence :: "PowerMode list"

definition NewManager :: Manager where
  "NewManager = \<lparr> sequence = [Quiet, Balance, Performance] \<rparr>"

text \<open>Go's run-time panics that indexing and \<^verbatim>\<open>%\<close> can raise.\<close>

datatype go_panic = IndexOutOfRange | DivideByZero

definition index_at :: "'a list \<Rightarrow> int \<Rightarrow> go_panic + 'a" where
  "index_at xs i =
     (if 0 \<le> i \<and> i < int (length xs) then Inr (xs ! nat i) else Inl IndexOutOfRange)"

text \<open>
  The search loop shared by both functions:
  \<^verbatim>\<open>currentIndex := -1; for i, mode := range xs { if mode == current { currentIndex = i; break } }\<close>
  The third argument is the running index \<open>i\<close>.
\<close>

fun find_index :: "PowerMode list \<Rightarrow> PowerMode \<Rightarrow> int \<Rightarrow> int" where
  "find_index [] current i = - 1"
| "find_index (mode # rest) current i =
     (if mode = current then i else find_index rest current (i + 1))"

definition GetNextMode :: "Manager \<Rightarrow> PowerMode \<Rightarrow> go_panic + PowerMode" where
  "GetNextMode m current =
     (let currentIndex = find_index (sequence m) current 0 in
      if currentIndex = - 1 then index_at (sequence m) 0
      else if length (sequence m) = 0 then Inl DivideByZero
      else index_at (sequence m) ((currentIndex + 1) mod int (length (sequence m))))"

definition GetNextModeFromList ::
  "Manager \<Rightarrow> PowerMode \<Rightarrow> PowerMode list \<Rightarrow> go_panic + PowerMode" where
  "GetNextModeFromList m current allowedModes =
     (if length allowedModes = 0 then GetNextMode m current
      else
        let currentIndex = find_index allowedModes current 0 in
        if currentIndex = - 1 then index_at allowedModes 0
        else index_at allowedModes ((currentIndex + 1) mod int (length allowedModes)))"

section \<open>The overlay notifier (package toast)\<close>

subsection \<open>Machine types, constants and structs\<close>

type_synonym uintptr = "64 word"
type_synonym uint32 = "32 word"
type_synonym int32 = "32 word"

definition WS_EX_LAYERED :: uintptr where "WS_EX_LAYERED = 0x00080000"
definition WS_EX_TOPMOST :: uintptr where "WS_EX_TOPMOST = 0x00000008"
definition WS_EX_TOOLWINDOW :: uintptr where "WS_EX_TOOLWINDOW = 0x00000080"
definition WS_POPUP :: uintptr where "WS_POPUP = 0x80000000"
definition SW_SHOW :: uintptr where "SW_SHOW = 5"
definition LWA_ALPHA :: uintptr where "LWA_ALPHA = 0x00000002"
definition SM_CXSCREEN :: uintptr where "SM_CXSCREEN = 0"
definition SM_CYSCREEN :: uintptr where "SM_CYSCREEN = 1"
definition WM_PAINT :: uint32 where "WM_PAINT = 0x000F"
definition WM_TIMER :: uint32 where "WM_TIMER = 0x0113"
definition WM_DESTROY :: uint32 where "WM_DESTROY = 0x0002"
definition DT_CENTER :: uintptr where "DT_CENTER = 0x00000001"
definition DT_VCENTER :: uintptr where "DT_VCENTER = 0x00000004"
definition DT_SINGLELINE :: uintptr where "DT_SINGLELINE = 0x00000020"
definition TRANSPARENT :: uintptr where "TRANSPARENT = 1"
definition FW_BOLD :: uintptr where "FW_BOLD = 700"
definition DEFAULT_CHARSET :: uintptr where "DEFAULT_CHARSET = 1"

record POINT =
  X :: int32
  Y :: int32

record MSG =
  Hwnd :: uintptr
  Message :: uint32
  WParam :: uintptr
  LParam :: uintptr
  Time :: uint32
  Pt :: POINT

record RECT =
  Left :: int32
  Top :: int32
  Right :: int32
  Bottom :: int32

text \<open>The two package-level variables the paint branch reads.\<close>

record globals =
  globalMessage :: string
  globalTitle :: string

text \<open>
  \<^verbatim>\<open>syscall.UTF16PtrFromString\<close>: a pointer to the NUL-terminated UTF-16 encoding of the
  string, or the nil pointer (with an error the callers here discard) when the string
  contains a NUL byte. \<open>Some s\<close> stands for the pointer to the encoding of \<open>s\<close>.
\<close>

definition UTF16PtrFromString :: "string \<Rightarrow> string option" where
  "UTF16PtrFromString s = (if CHR 0x00 \<in> set s then None else Some s)"

text \<open>
  \<^verbatim>\<open>time.Duration\<close> counts nanoseconds; \<^verbatim>\<open>Milliseconds\<close> is Go's truncating division by
  \<open>10\<^sup>6\<close>. \<open>go_quo\<close> is Go's \<^verbatim>\<open>/\<close> on integers, which rounds towards zero.
\<close>

type_synonym Duration = int

definition Second :: Duration where "Second = 1000000000"

definition go_quo :: "int \<Rightarrow> int \<Rightarrow> int" where
  "go_quo a b = sgn a * sgn b * (\<bar>a\<bar> div \<bar>b\<bar>)"

definition Milliseconds :: "Duration \<Rightarrow> int" where
  "Milliseconds d = go_quo d 1000000"

subsection \<open>The binary64 product \<^verbatim>\<open>float64(screenHeight)*0.15\<close>\<close>

text \<open>
  The only floating-point values of the program are \<^verbatim>\<open>float64(screenHeight)\<close>, the constant
  \<open>0.15\<close> and their product. The binary64 number nearest to \<open>0.15\<close> is
  \<open>5404319552844595 / 2\<^sup>5\<^sup>5\<close>, so every one of these values is a natural multiple of
  \<open>2\<^sup>-\<^sup>5\<^sup>5\<close> and is kept here as that multiple. \<open>round53\<close> is the rounding of binary64
  arithmetic: to 53 significant bits, to nearest, ties to the even significand. (The
  values stay between \<open>2\<^sup>-\<^sup>3\<close> and \<open>2\<^sup>6\<^sup>2\<close>, far from overflow and from subnormals.)
\<close>

fun bit_length :: "nat \<Rightarrow> nat" where
  "bit_length n = (if n = 0 then 0 else Suc (bit_length (n div 2)))"

definition round53 :: "nat \<Rightarrow> nat" where
  "round53 n =
     (let b = bit_length n in
      if b \<le> 53 then n
      else
        let sh = b - 53; q = n div 2 ^ sh; r = n mod 2 ^ sh; half = 2 ^ (sh - 1)
        in (if half < r \<or> (r = half \<and> odd q) then q + 1 else q) * 2 ^ sh)"

definition f64_015 :: nat where
  "f64_015 = 5404319552844595"

text \<open>
  \<^verbatim>\<open>int(float64(screenHeight)*0.15)\<close>: the conversion of the unsigned value rounds, the
  product rounds, and \<^verbatim>\<open>int\<close> drops the fraction.
\<close>

definition int_of_15_percent :: "uintptr \<Rightarrow> int" where
  "int_of_15_percent screenHeight =
     int (round53 (round53 (unat screenHeight) * f64_015) div 2 ^ 55)"

subsection \<open>Calls into user32 and gdi32\<close>

text \<open>
  One constructor for each procedure the package calls (and \<open>KillTimer\<close>, which it loads),
  with the arguments in the order of the call. A string pointer is a \<open>string option\<close> as
  above; a pointer to a struct is the struct. \<open>CreateFont\<close> carries its thirteen numeric
  arguments as a list, then the face name.
\<close>

datatype api_call =
    RegisterClassEx "string option" uintptr
  | GetSystemMetrics uintptr
  | CreateWindowEx uintptr "string option" "string option" uintptr
      uintptr uintptr uintptr uintptr uintptr uintptr uintptr uintptr
  | SetLayeredWindowAttributes uintptr uintptr uintptr uintptr
  | ShowWindow uintptr uintptr
  | UpdateWindow uintptr
  | SetTimer uintptr uintptr uintptr uintptr
  | KillTimer uintptr uintptr
  | GetMessage
  | TranslateMessage MSG
  | DispatchMessage MSG
  | BeginPaint uintptr
  | EndPaint uintptr
  | CreateSolidBrush uintptr
  | FillRect uintptr RECT uintptr
  | DeleteObject uintptr
  | SetBkMode uintptr uintptr
  | SetTextColor uintptr uintptr
  | CreateFont "uintptr list" "string option"
  | SelectObject uintptr uintptr
  | DrawText uintptr "string option" uintptr RECT uintptr
  | DestroyWindow uintptr
  | PostQuitMessage uintptr
  | DefWindowProc uintptr uintptr uintptr uintptr

text \<open>
  An event is a call together with the value the program reads from it: \<open>Some r\<close> where
  the source binds the first result, \<open>None\<close> where it discards the result (or where the
  call never returns).
\<close>

type_synonym event = "api_call \<times> uintptr option"

text \<open>
  What the OS answers to the calls of one run of the window procedure: the paint branch
  reads five handles, the default branch reads the result of \<open>DefWindowProc\<close>. The last
  field is not read by the program: it says whether the default processing of the message
  went on to close the window (as it does for a system command or key that closes it).
\<close>

record os_returns =
  ret_BeginPaint :: uintptr
  ret_CreateSolidBrush :: uintptr
  ret_CreateFont_title :: uintptr
  ret_CreateFont_message :: uintptr
  ret_SelectObject :: uintptr
  ret_DefWindowProc :: uintptr
  ret_DefWindowProc_closes :: bool

subsection \<open>The window procedure\<close>

definition wndProcCallback ::
  "globals \<Rightarrow> os_returns \<Rightarrow> uintptr \<Rightarrow> uint32 \<Rightarrow> uintptr \<Rightarrow> uintptr \<Rightarrow> event list \<times> uintptr" where
  "wndProcCallback g r hwnd msg wParam lParam =
     (if msg = WM_PAINT then
        (let hdc = ret_BeginPaint r;
             bgBrush = ret_CreateSolidBrush r;
             rect = \<lparr> Left = 0, Top = 0, Right = 400, Bottom = 100 \<rparr>;
             titleFont = ret_CreateFont_title r;
             messageFont = ret_CreateFont_message r;
             oldFont = ret_SelectObject r;
             titleRect = \<lparr> Left = 10, Top = 15, Right = 390, Bottom = 45 \<rparr>;
             titleText = UTF16PtrFromString (globalTitle g);
             messageRect = \<lparr> Left = 10, Top = 50, Right = 390, Bottom = 85 \<rparr>;
             messageText = UTF16PtrFromString (globalMessage g)
         in ([(BeginPaint hwnd, Some hdc),
              (CreateSolidBrush 0x00202020, Some bgBrush),
              (FillRect hdc rect bgBrush, None),
              (DeleteObject bgBrush, None),
              (SetBkMode hdc TRANSPARENT, None),
              (SetTextColor hdc 0x00FFFFFF, None),
              (CreateFont [24, 0, 0, 0, FW_BOLD, 0, 0, 0, DEFAULT_CHARSET, 0, 0, 0, 0]
                 (Some ''Segoe UI''), Some titleFont),
              (CreateFont [18, 0, 0, 0, 0, 0, 0, 0, DEFAULT_CHARSET, 0, 0, 0, 0]
                 (Some ''Segoe UI''), Some messageFont),
              (SelectObject hdc titleFont, Some oldFont),
              (DrawText hdc titleText (- 1) titleRect
                 (DT_CENTER OR DT_VCENTER OR DT_SINGLELINE), None),
              (SelectObject hdc messageFont, None),
              (DrawText hdc messageText (- 1) messageRect
                 (DT_CENTER OR DT_VCENTER OR DT_SINGLELINE), None),
              (SelectObject hdc oldFont, None),
              (DeleteObject titleFont, None),
              (DeleteObject messageFont, None),
              (EndPaint hwnd, None)], 0))
      else if msg = WM_TIMER then ([(DestroyWindow hwnd, None)], 0)
      else if msg = WM_DESTROY then ([(PostQuitMessage 0, None)], 0)
      else
        (let ret = ret_DefWindowProc r
         in ([(DefWindowProc hwnd (ucast msg) wParam lParam, Some ret)], ret)))"

subsection \<open>The part of user32 the overlay depends on\<close>

text \<open>
  The program runs against the window manager, which is not part of the repository. What
  the claims need of it is written out here, after its documentation:
  \<^item> the thread owns one window (\<open>os_hwnd\<close>), which exists from \<open>CreateWindowEx\<close> until it
    is destroyed;
  \<^item> \<open>SetTimer\<close> arms a timer on the window when it succeeds (a non-zero result); an armed
    timer yields \<open>WM_TIMER\<close>, with the timer's identifier and a null \<open>lParam\<close>, whenever
    the queue is empty, until the window is destroyed or \<open>KillTimer\<close> is called;
  \<^item> destroying the existing window sends \<open>WM_DESTROY\<close> to the window procedure, removes
    the window's timer and the messages queued for it; \<open>DestroyWindow\<close> does so, and so
    does \<open>DefWindowProc\<close> when it is given \<open>WM_CLOSE\<close> or another message whose default
    processing closes the window;
  \<^item> \<open>PostQuitMessage\<close> makes \<open>GetMessage\<close> return 0 once the queue is empty;
  \<^item> \<open>GetMessage\<close> retrieves the first queued message if there is one, and returns 0
    when that message is \<open>WM_QUIT\<close>; with an empty queue it returns 0 after a quit
    request, else the timer message of an armed timer, and otherwise never returns;
  \<^item> \<open>DispatchMessage\<close> calls the window procedure of the existing window, except for a
    \<open>WM_TIMER\<close> message with a non-null \<open>lParam\<close>, which goes to the timer procedure
    that \<open>lParam\<close> names (none of the program's); \<open>UpdateWindow\<close> calls the window
    procedure with \<open>WM_PAINT\<close>;
  \<^item> every other call leaves this state alone.
  The messages that reach the queue before the timer elapses (\<open>inbox\<close>) and all answers
  of the OS are inputs of the model. \<open>GetMessage\<close> is called with a null window
  filter and a valid buffer, so its error result \<open>-1\<close> does not arise. \<open>WM_CLOSE\<close> and
  \<open>WM_QUIT\<close> are message numbers of user32 that the package itself does not name.
\<close>

definition WM_CLOSE :: uint32 where "WM_CLOSE = 0x0010"
definition WM_QUIT :: uint32 where "WM_QUIT = 0x0012"

record delivery =
  d_msg :: MSG
  d_returns :: os_returns

record os_state =
  os_hwnd :: uintptr
  win_alive :: bool
  timer_set :: bool
  quit_posted :: bool
  inbox :: "delivery list"

definition no_returns :: os_returns where
  "no_returns = \<lparr> ret_BeginPaint = 0, ret_CreateSolidBrush = 0, ret_CreateFont_title = 0,
     ret_CreateFont_message = 0, ret_SelectObject = 0, ret_DefWindowProc = 0,
     ret_DefWindowProc_closes = False \<rparr>"

text \<open>The effect of a call that sends no message.\<close>

definition os_plain_call :: "os_state \<Rightarrow> event \<Rightarrow> os_state" where
  "os_plain_call s ev =
     (case fst ev of
        PostQuitMessage c \<Rightarrow> s\<lparr>quit_posted := True\<rparr>
      | KillTimer h i \<Rightarrow> (if h = os_hwnd s then s\<lparr>timer_set := False\<rparr> else s)
      | _ \<Rightarrow> s)"

text \<open>
  The window is destroyed: the \<open>WM_DESTROY\<close> handler runs (it reads no answer of the
  OS), then the window, its timer and the messages queued for it are gone.
\<close>

definition os_destroy :: "globals \<Rightarrow> os_state \<Rightarrow> event list \<times> os_state" where
  "os_destroy g s =
     (let nested = fst (wndProcCallback g no_returns (os_hwnd s) WM_DESTROY 0 0);
          s1 = foldl os_plain_call s nested
      in (nested,
          s1\<lparr>win_alive := False, timer_set := False,
             inbox := filter (\<lambda>d. Hwnd (d_msg d) \<noteq> os_hwnd s) (inbox s1)\<rparr>))"

text \<open>
  One call of the window procedure's, with the events it gives rise to: the call itself
  and, where the call destroys the window, the calls of the \<open>WM_DESTROY\<close> handler that
  runs inside it. \<open>DefWindowProc\<close> takes its message number as a 32-bit value.
\<close>

definition os_call :: "globals \<Rightarrow> os_returns \<Rightarrow> os_state \<Rightarrow> event \<Rightarrow> event list \<times> os_state" where
  "os_call g r s ev =
     (case fst ev of
        DestroyWindow h \<Rightarrow>
          (if h = os_hwnd s \<and> win_alive s then
             let (nested, s1) = os_destroy g s in (ev # nested, s1)
           else ([ev], s))
      | DefWindowProc h m w l \<Rightarrow>
          (if h = os_hwnd s \<and> win_alive s \<and>
              ((ucast m :: uint32) = WM_CLOSE \<or> ret_DefWindowProc_closes r) then
             let (nested, s1) = os_destroy g s in (ev # nested, s1)
           else ([ev], s))
      | _ \<Rightarrow> ([ev], os_plain_call s ev))"

fun os_calls :: "globals \<Rightarrow> os_returns \<Rightarrow> os_state \<Rightarrow> event list \<Rightarrow> event list \<times> os_state" where
  "os_calls g r s [] = ([], s)"
| "os_calls g r s (ev # evs) =
     (let (t1, s1) = os_call g r s ev;
          (t2, s2) = os_calls g r s1 evs
      in (t1 @ t2, s2))"

text \<open>The OS hands a message to the window procedure of the window it is addressed to.\<close>

definition os_SendMessage ::
  "globals \<Rightarrow> os_returns \<Rightarrow> os_state \<Rightarrow> MSG \<Rightarrow> event list \<times> os_state" where
  "os_SendMessage g r s m =
     (if Hwnd m = os_hwnd s \<and> win_alive s then
        os_calls g r s (fst (wndProcCallback g r (Hwnd m) (Message m) (WParam m) (LParam m)))
      else ([], s))"

definition os_DispatchMessage ::
  "globals \<Rightarrow> os_returns \<Rightarrow> os_state \<Rightarrow> MSG \<Rightarrow> event list \<times> os_state" where
  "os_DispatchMessage g r s m =
     (if Message m = WM_TIMER \<and> LParam m \<noteq> 0 then ([], s) else os_SendMessage g r s m)"

datatype got = Got delivery | GotQuit | Never

definition timer_delivery :: "os_state \<Rightarrow> delivery" where
  "timer_delivery s =
     \<lparr> d_msg = \<lparr> Hwnd = os_hwnd s, Message = WM_TIMER, WParam = 1, LParam = 0, Time = 0,
                 Pt = \<lparr> X = 0, Y = 0 \<rparr> \<rparr>,
       d_returns = no_returns \<rparr>"

definition os_GetMessage :: "os_state \<Rightarrow> got \<times> os_state" where
  "os_GetMessage s =
     (case inbox s of
        d # ds \<Rightarrow>
          if Message (d_msg d) = WM_QUIT then (GotQuit, s\<lparr>inbox := ds\<rparr>)
          else (Got d, s\<lparr>inbox := ds\<rparr>)
      | [] \<Rightarrow>
          if quit_posted s then (GotQuit, s)
          else if win_alive s \<and> timer_set s then (Got (timer_delivery s), s)
          else (Never, s))"

subsection \<open>showOSD and the two entry points\<close>

text \<open>
  How a call ends: it returns Go's \<^verbatim>\<open>error\<close> (\<open>None\<close> is \<^verbatim>\<open>nil\<close>), or it stays in
  \<open>GetMessage\<close> for ever.
\<close>

datatype outcome = Returned "string option" | Blocked

text \<open>
  The message loop of \<open>showOSD\<close>. The first argument bounds the number of iterations;
  \<open>None\<close> means the bound was reached.
\<close>

fun message_loop :: "nat \<Rightarrow> globals \<Rightarrow> os_state \<Rightarrow> (event list \<times> outcome) option" where
  "message_loop 0 g s = None"
| "message_loop (Suc n) g s =
     (case os_GetMessage s of
        (Never, s1) \<Rightarrow> Some ([(GetMessage, None)], Blocked)
      | (GotQuit, s1) \<Rightarrow> Some ([(GetMessage, Some 0)], Returned None)
      | (Got d, s1) \<Rightarrow>
          (let (t, s2) = os_DispatchMessage g (d_returns d) s1 (d_msg d)
           in case message_loop n g s2 of
                None \<Rightarrow> None
              | Some (rest, out) \<Rightarrow>
                  Some ([(GetMessage, Some 1), (TranslateMessage (d_msg d), None),
                         (DispatchMessage (d_msg d), None)] @ t @ rest, out)))"

text \<open>
  What the OS answers during one call of \<open>showOSD\<close>. \<open>env_instance\<close> is the value the
  source computes for \<^verbatim>\<open>instance\<close> from \<^verbatim>\<open>LoadLibrary\<close> and \<^verbatim>\<open>GetProcAddress\<close>.
  The source compares the result of \<open>RegisterClassEx\<close> with 0 and does nothing in either
  case (\<^verbatim>\<open>if ret == 0 { }\<close>); it discards the results of \<open>SetLayeredWindowAttributes\<close>,
  \<open>ShowWindow\<close>, \<open>UpdateWindow\<close> and \<open>SetTimer\<close>. The parameters \<open>title\<close> and \<open>message\<close>
  are not used in the body: the paint branch reads the package variables.
\<close>

record os_env =
  env_instance :: uintptr
  env_RegisterClassEx :: uintptr
  env_screenWidth :: uintptr
  env_screenHeight :: uintptr
  env_CreateWindowEx :: uintptr
  env_UpdateWindow :: os_returns
  env_SetTimer :: uintptr
  env_inbox :: "delivery list"

definition osdX_of :: "uintptr \<Rightarrow> int" where
  "osdX_of screenWidth = go_quo (sint (screenWidth - 400)) 2"

definition osdY_of :: "uintptr \<Rightarrow> int" where
  "osdY_of screenHeight = sint screenHeight - int_of_15_percent screenHeight"

definition showOSD ::
  "nat \<Rightarrow> os_env \<Rightarrow> globals \<Rightarrow> string \<Rightarrow> string \<Rightarrow> Duration \<Rightarrow> (event list \<times> outcome) option" where
  "showOSD fuel env g title message duration =
     (let className = UTF16PtrFromString ''LLTHelperOSD'';
          instance = env_instance env;
          ret = env_RegisterClassEx env;
          screenWidth = env_screenWidth env;
          screenHeight = env_screenHeight env;
          osdWidth = 400;
          osdHeight = 100;
          osdX = osdX_of screenWidth;
          osdY = osdY_of screenHeight;
          windowName = UTF16PtrFromString ''LLT Helper OSD'';
          hwnd = env_CreateWindowEx env;
          t0 = [(RegisterClassEx className instance, Some ret),
                (GetSystemMetrics SM_CXSCREEN, Some screenWidth),
                (GetSystemMetrics SM_CYSCREEN, Some screenHeight),
                (CreateWindowEx (WS_EX_LAYERED OR WS_EX_TOPMOST OR WS_EX_TOOLWINDOW)
                   className windowName WS_POPUP
                   (word_of_int osdX) (word_of_int osdY) osdWidth osdHeight
                   0 0 instance 0, Some hwnd)]
      in if hwnd = 0 then Some (t0, Returned (Some ''CreateWindowEx failed''))
         else
           let s0 = \<lparr> os_hwnd = hwnd, win_alive = True, timer_set = False,
                      quit_posted = False, inbox = env_inbox env \<rparr>;
               (t1, s1) = os_SendMessage g (env_UpdateWindow env) s0
                  \<lparr> Hwnd = hwnd, Message = WM_PAINT, WParam = 0, LParam = 0, Time = 0,
                    Pt = \<lparr> X = 0, Y = 0 \<rparr> \<rparr>;
               timerID = 1;
               s2 = s1\<lparr>timer_set := (env_SetTimer env \<noteq> 0)\<rparr>;
               t2 = t0 @ [(SetLayeredWindowAttributes hwnd 0 220 LWA_ALPHA, None),
                          (ShowWindow hwnd SW_SHOW, None),
                          (UpdateWindow hwnd, None)] @ t1 @
                         [(SetTimer hwnd timerID (word_of_int (Milliseconds duration)) 0, None)]
           in case message_loop fuel g s2 of
                None \<Rightarrow> None
              | Some (rest, out) \<Rightarrow> Some (t2 @ rest, out))"

record Notifier =
  appID :: string


text \<open>
  Both entry points assign the two package variables and then call \<open>showOSD\<close>; the
  result is the variables as they are left, the events and the outcome, with an error of
  \<open>showOSD\<close> wrapped by \<^verbatim>\<open>fmt.Errorf("OSD notification error: %w", err)\<close>.
\<close>

definition wrap_error :: "outcome \<Rightarrow> outcome" where
  "wrap_error out =
     (case out of
        Returned (Some err) \<Rightarrow> Returned (Some (''OSD notification error: '' @ err))
      | Returned None \<Rightarrow> Returned None
      | Blocked \<Rightarrow> Blocked)"

definition ShowModeChange ::
  "nat \<Rightarrow> os_env \<Rightarrow> globals \<Rightarrow> Notifier \<Rightarrow> string \<Rightarrow> string \<Rightarrow>
   (globals \<times> event list \<times> outcome) option" where
  "ShowModeChange fuel env g n modeName iconPath =
     (let g1 = g\<lparr>globalTitle := ''Power Mode Changed''\<rparr>;
          g2 = g1\<lparr>globalMessage := ''Switched to '' @ modeName @ '' Mode''\<rparr>
      in case showOSD fuel env g2 (globalTitle g2) (globalMessage g2) (3 * Second) of
           None \<Rightarrow> None
         | Some (t, out) \<Rightarrow> Some (g2, t, wrap_error out))"


subsection \<open>Observations on event lists\<close>

fun is_DestroyWindow :: "event \<Rightarrow> bool" where
  "is_DestroyWindow (DestroyWindow h, r) = True"
| "is_DestroyWindow _ = False"

fun is_PostQuitMessage :: "event \<Rightarrow> bool" where
  "is_PostQuitMessage (PostQuitMessage c, r) = True"
| "is_PostQuitMessage _ = False"

fun is_KillTimer :: "event \<Rightarrow> bool" where
  "is_KillTimer (KillTimer h i, r) = True"
| "is_KillTimer _ = False"

fun is_GetMessage :: "event \<Rightarrow> bool" where
  "is_GetMessage (GetMessage, r) = True"
| "is_GetMessage _ = False"

definition count_DestroyWindow :: "event list \<Rightarrow> nat" where
  "count_DestroyWindow evs = length (filter is_DestroyWindow evs)"

text \<open>Handles of the GDI objects an event creates, and of the one it deletes.\<close>

fun created :: "event \<Rightarrow> uintptr list" where
  "created (CreateSolidBrush c, Some h) = [h]"
| "created (CreateFont a f, Some h) = [h]"
| "created _ = []"

fun deleted :: "event \<Rightarrow> uintptr list" where
  "deleted (DeleteObject h, r) = [h]"
| "deleted _ = []"

definition objects_created :: "event list \<Rightarrow> uintptr list" where
  "objects_created evs = concat (map created evs)"

definition objects_deleted :: "event list \<Rightarrow> uintptr list" where
  "objects_deleted evs = concat (map deleted evs)"

text \<open>The GDI objects in existence, as a multiset of handles, after a list of events.\<close>

definition gdi_step :: "uintptr multiset \<Rightarrow> event \<Rightarrow> uintptr multiset" where
  "gdi_step live ev = (live + mset (created ev)) - mset (deleted ev)"

definition live_objects :: "uintptr multiset \<Rightarrow> event list \<Rightarrow> uintptr multiset" where
  "live_objects live evs = foldl gdi_step live evs"

text \<open>Windows for which a paint context is begun, and for which it is ended.\<close>

fun begun :: "event \<Rightarrow> uintptr list" where
  "begun (BeginPaint w, r) = [w]"
| "begun _ = []"

fun ended :: "event \<Rightarrow> uintptr list" where
  "ended (EndPaint w, r) = [w]"
| "ended _ = []"

definition paints_begun :: "event list \<Rightarrow> uintptr list" where
  "paints_begun evs = concat (map begun evs)"

definition paints_ended :: "event list \<Rightarrow> uintptr list" where
  "paints_ended evs = concat (map ended evs)"

text \<open>The texts handed to \<open>DrawText\<close> with their rectangles, and the periods of the timers set.\<close>

fun drawn :: "event \<Rightarrow> (string option \<times> RECT) list" where
  "drawn (DrawText hdc t n rect f, r) = [(t, rect)]"
| "drawn _ = []"

definition texts_drawn :: "event list \<Rightarrow> (string option \<times> RECT) list" where
  "texts_drawn evs = concat (map drawn evs)"

fun timer_period :: "event \<Rightarrow> uintptr list" where
  "timer_period (SetTimer h i ms p, r) = [ms]"
| "timer_period _ = []"

definition timers_set :: "event list \<Rightarrow> uintptr list" where
  "timers_set evs = concat (map timer_period evs)"

text \<open>
  A queued message that can end the overlay before its own timer does: a timer message
  from elsewhere, a destroy, close or quit message, or one whose default processing
  closes the window.
\<close>

definition ends_overlay :: "delivery \<Rightarrow> bool" where
  "ends_overlay d =
     (Message (d_msg d) = WM_TIMER \<or> Message (d_msg d) = WM_DESTROY \<or>
      Message (d_msg d) = WM_CLOSE \<or> Message (d_msg d) = WM_QUIT \<or>
      ret_DefWindowProc_closes (d_returns d))"

text \<open>The calls of the loop itself, as against those of the window procedure.\<close>

fun is_loop_call :: "event \<Rightarrow> bool" where
  "is_loop_call (GetMessage, r) = True"
| "is_loop_call (TranslateMessage m, r) = True"
| "is_loop_call (DispatchMessage m, r) = True"
| "is_loop_call _ = False"

text \<open>\<open>n\<close> consecutive repaint requests for one window, one set of OS answers each.\<close>

definition repaints :: "globals \<Rightarrow> uintptr \<Rightarrow> os_returns list \<Rightarrow> event list" where
  "repaints g hwnd rs = concat (map (\<lambda>r. fst (wndProcCallback g r hwnd WM_PAINT 0 0)) rs)"

text \<open>
  Names for the three stretches of a run of \<open>showOSD\<close> before its loop, and for the state
  of the window manager when the loop starts.
\<close>

definition create_events :: "os_env \<Rightarrow> event list" where
  "create_events env =
     [(RegisterClassEx (UTF16PtrFromString ''LLTHelperOSD'') (env_instance env),
         Some (env_RegisterClassEx env)),
      (GetSystemMetrics SM_CXSCREEN, Some (env_screenWidth env)),
      (GetSystemMetrics SM_CYSCREEN, Some (env_screenHeight env)),
      (CreateWindowEx (WS_EX_LAYERED OR WS_EX_TOPMOST OR WS_EX_TOOLWINDOW)
         (UTF16PtrFromString ''LLTHelperOSD'') (UTF16PtrFromString ''LLT Helper OSD'') WS_POPUP
         (word_of_int (osdX_of (env_screenWidth env)))
         (word_of_int (osdY_of (env_screenHeight env))) 400 100
         0 0 (env_instance env) 0, Some (env_CreateWindowEx env))]"

definition show_events :: "os_env \<Rightarrow> globals \<Rightarrow> event list" where
  "show_events env g =
     [(SetLayeredWindowAttributes (env_CreateWindowEx env) 0 220 LWA_ALPHA, None),
      (ShowWindow (env_CreateWindowEx env) SW_SHOW, None),
      (UpdateWindow (env_CreateWindowEx env), None)] @
     fst (wndProcCallback g (env_UpdateWindow env) (env_CreateWindowEx env) WM_PAINT 0 0)"

definition timer_events :: "os_env \<Rightarrow> Duration \<Rightarrow> event list" where
  "timer_events env duration =
     [(SetTimer (env_CreateWindowEx env) 1 (word_of_int (Milliseconds duration)) 0, None)]"

definition loop_start :: "os_env \<Rightarrow> os_state" where
  "loop_start env =
     \<lparr> os_hwnd = env_CreateWindowEx env, win_alive = True,
       timer_set = (env_SetTimer env \<noteq> 0), quit_posted = False, inbox = env_inbox env \<rparr>"

subsection \<open>Sample inputs\<close>

text \<open>
  A 1920 by 1080 display on which the window is created and the timer is armed, with one
  paint request and one mouse move (\<open>WM_MOUSEMOVE\<close>, 0x0200) queued before the timer elapses.
\<close>

definition sample_returns :: os_returns where
  "sample_returns = \<lparr> ret_BeginPaint = 0x10, ret_CreateSolidBrush = 0x11,
     ret_CreateFont_title = 0x12, ret_CreateFont_message = 0x13, ret_SelectObject = 0x14,
     ret_DefWindowProc = 0, ret_DefWindowProc_closes = False \<rparr>"

definition sample_globals :: globals where
  "sample_globals = \<lparr> globalMessage = [], globalTitle = [] \<rparr>"

definition sample_inbox :: "delivery list" where
  "sample_inbox =
     [\<lparr> d_msg = \<lparr> Hwnd = 0x2A, Message = 0x000F, WParam = 0, LParam = 0, Time = 0,
                  Pt = \<lparr> X = 0, Y = 0 \<rparr> \<rparr>, d_returns = sample_returns \<rparr>,
      \<lparr> d_msg = \<lparr> Hwnd = 0x2A, Message = 0x0200, WParam = 0, LParam = 0, Time = 0,
                  Pt = \<lparr> X = 5, Y = 5 \<rparr> \<rparr>, d_returns = sample_returns \<rparr>]"

definition sample_env :: os_env where
  "sample_env = \<lparr> env_instance = 0x7FF0, env_RegisterClassEx = 0xC1A5,
     env_screenWidth = 1920, env_screenHeight = 1080, env_CreateWindowEx = 0x2A,
     env_UpdateWindow = sample_returns, env_SetTimer = 1, env_inbox = sample_inbox \<rparr>"

section \<open>Properties of the rotation\<close>

lemma find_index_absent:
  "current \<notin> set xs \<Longrightarrow> find_index xs current i = - 1"
  by (induction xs arbitrary: i) auto

lemma find_index_first:
  "k < length xs \<Longrightarrow> xs ! k = current \<Longrightarrow> \<forall>j<k. xs ! j \<noteq> current \<Longrightarrow>
   find_index xs current i = i + int k"
proof (induction xs arbitrary: i k)
  case Nil
  then show ?case by simp
next
  case (Cons x xs)
  show ?case
  proof (cases k)
    case 0
    with Cons.prems show ?thesis by simp
  next
    case (Suc k')
    from Cons.prems Suc have ne: "x \<noteq> current" by auto
    from Cons.prems Suc have "k' < length xs" "xs ! k' = current" by auto
    moreover from Cons.prems Suc have "\<forall>j<k'. xs ! j \<noteq> current" by auto
    ultimately have "find_index xs current (i + 1) = i + 1 + int k'"
      by (rule Cons.IH)
    with ne Suc show ?thesis by simp
  qed
qed

lemma index_at_in_set:
  "0 \<le> i \<Longrightarrow> i < int (length xs) \<Longrightarrow> \<exists>r \<in> set xs. index_at xs i = Inr r"
  by (simp add: index_at_def)

lemma GetNextModeFromList_member:
  assumes "allowedModes \<noteq> []"
  shows "\<exists>r \<in> set allowedModes. GetNextModeFromList m current allowedModes = Inr r"
proof -
  let ?n = "int (length allowedModes)"
  let ?c = "find_index allowedModes current 0"
  from assms have n: "0 < ?n" by simp
  show ?thesis
  proof (cases "?c = - 1")
    case True
    with assms n index_at_in_set [of 0 allowedModes] show ?thesis
      by (simp add: GetNextModeFromList_def)
  next
    case False
    have "0 \<le> (?c + 1) mod ?n" "(?c + 1) mod ?n < ?n" using n by simp_all
    from index_at_in_set [OF this] False assms show ?thesis
      by (simp add: GetNextModeFromList_def Let_def)
  qed
qed

lemma GetNextMode_NewManager:
  "GetNextMode NewManager current =
     Inr (if current = Quiet then Balance
          else if current = Balance then Performance
          else Quiet)"
  by (simp add: GetNextMode_def NewManager_def index_at_def Quiet_def Balance_def
      Performance_def)

text \<open>
  C10, as the claim words it (every index \<open>i\<close> holding the current mode), fails on a list
  that repeats a mode: the search stops at the first occurrence. With
  \<^verbatim>\<open>--modes=quiet,balance,quiet,performance\<close> and current mode \<open>quiet\<close>, index 2 holds
  \<open>quiet\<close> and its successor is \<open>performance\<close>, but the function returns \<open>balance\<close>.
\<close>

theorem GetNextModeFromList_duplicate_counterexample:
  "[''quiet'', ''balance'', ''quiet'', ''performance''] ! 2 = ''quiet'' \<and>
   [''quiet'', ''balance'', ''quiet'', ''performance''] ! ((2 + 1) mod 4) = ''performance'' \<and>
   GetNextModeFromList NewManager ''quiet'' [''quiet'', ''balance'', ''quiet'', ''performance'']
     = Inr ''balance''"
  by (simp add: GetNextModeFromList_def index_at_def)

text \<open>
  C10 (amended): for a non-empty list, \<open>GetNextModeFromList\<close> returns the element after
  the first occurrence of the current mode, cyclically, and the first element when the
  current mode does not occur; the result is a member of the list. For the empty list it
  is \<open>GetNextMode\<close>, which on the manager's fixed sequence sends quiet to balance,
  balance to performance, and performance and every other mode (such as godmode) to quiet.
\<close>

theorem GetNextModeFromList_cycle:
  "(allowedModes \<noteq> [] \<longrightarrow>
      (current \<notin> set allowedModes \<longrightarrow>
         GetNextModeFromList m current allowedModes = Inr (allowedModes ! 0)) \<and>
      (\<forall>i<length allowedModes.
         allowedModes ! i = current \<and> (\<forall>j<i. allowedModes ! j \<noteq> current) \<longrightarrow>
         GetNextModeFromList m current allowedModes =
           Inr (allowedModes ! ((i + 1) mod length allowedModes))) \<and>
      (\<exists>r \<in> set allowedModes. GetNextModeFromList m current allowedModes = Inr r)) \<and>
   GetNextModeFromList NewManager current [] = GetNextMode NewManager current \<and>
   GetNextMode NewManager current =
     Inr (if current = Quiet then Balance
          else if current = Balance then Performance
          else Quiet) \<and>
   GetNextMode NewManager GodMode = Inr Quiet"
proof -
  have absent: "GetNextModeFromList m current allowedModes = Inr (allowedModes ! 0)"
    if "allowedModes \<noteq> []" "current \<notin> set allowedModes"
    using that find_index_absent [of current allowedModes 0]
    by (simp add: GetNextModeFromList_def index_at_def)
  have present: "GetNextModeFromList m current allowedModes =
      Inr (allowedModes ! ((i + 1) mod length allowedModes))"
    if ne: "allowedModes \<noteq> []" and i: "i < length allowedModes"
      and at: "allowedModes ! i = current" and first: "\<forall>j<i. allowedModes ! j \<noteq> current"
    for i
  proof -
    have fi: "find_index allowedModes current 0 = int i"
      using find_index_first [OF i at first, of 0] by simp
    have nn: "(int i + 1) mod int (length allowedModes)
        = int ((i + 1) mod length allowedModes)"
      by (simp add: zmod_int ac_simps)
    have lt: "(i + 1) mod length allowedModes < length allowedModes"
      using ne by simp
    show ?thesis
      using ne lt by (simp add: GetNextModeFromList_def fi nn index_at_def del: of_nat_add of_nat_Suc)
  qed
  have empty: "GetNextModeFromList NewManager current [] = GetNextMode NewManager current"
    by (simp add: GetNextModeFromList_def)
  have god: "GetNextMode NewManager GodMode = Inr Quiet"
    by (simp add: GetNextMode_NewManager) (simp add: GodMode_def Quiet_def Balance_def)
  from absent present GetNextModeFromList_member [of allowedModes m current]
    empty GetNextMode_NewManager [of current] god
  show ?thesis by blast
qed

theorem GetNextModeFromList_cycle_witness:
  "[''quiet'', ''performance''] \<noteq> [] \<and>
   ''balance'' \<notin> set [''quiet'', ''performance''] \<and>
   GetNextModeFromList NewManager ''balance'' [''quiet'', ''performance''] = Inr ''quiet'' \<and>
   GetNextModeFromList NewManager ''performance'' [''quiet'', ''performance''] = Inr ''quiet'' \<and>
   GetNextModeFromList NewManager ''quiet'' [''quiet'', ''balance'', ''quiet'', ''performance'']
     = Inr ''balance''"
proof -
  have a: "GetNextModeFromList NewManager ''balance'' [''quiet'', ''performance''] = Inr ''quiet''"
    using GetNextModeFromList_cycle [of "[''quiet'', ''performance'']" "''balance''" NewManager]
    by simp
  have b: "GetNextModeFromList NewManager ''performance'' [''quiet'', ''performance'']
      = Inr ''quiet''"
    using GetNextModeFromList_cycle [of "[''quiet'', ''performance'']" "''performance''" NewManager]
    by (auto simp: less_Suc_eq)
  have c: "GetNextModeFromList NewManager ''quiet'' [''quiet'', ''balance'', ''quiet'', ''performance'']
      = Inr ''balance''"
    using GetNextModeFromList_cycle
      [of "[''quiet'', ''balance'', ''quiet'', ''performance'']" "''quiet''" NewManager]
    by (auto simp: less_Suc_eq)
  from a b c show ?thesis by simp
qed

section \<open>Properties of the window procedure and the message loop\<close>

lemma wndProc_paint:
  "wndProcCallback g r hwnd WM_PAINT wParam lParam =
     ([(BeginPaint hwnd, Some (ret_BeginPaint r)),
       (CreateSolidBrush 0x00202020, Some (ret_CreateSolidBrush r)),
       (FillRect (ret_BeginPaint r) \<lparr> Left = 0, Top = 0, Right = 400, Bottom = 100 \<rparr>
          (ret_CreateSolidBrush r), None),
       (DeleteObject (ret_CreateSolidBrush r), None),
       (SetBkMode (ret_BeginPaint r) TRANSPARENT, None),
       (SetTextColor (ret_BeginPaint r) 0x00FFFFFF, None),
       (CreateFont [24, 0, 0, 0, FW_BOLD, 0, 0, 0, DEFAULT_CHARSET, 0, 0, 0, 0]
          (Some ''Segoe UI''), Some (ret_CreateFont_title r)),
       (CreateFont [18, 0, 0, 0, 0, 0, 0, 0, DEFAULT_CHARSET, 0, 0, 0, 0]
          (Some ''Segoe UI''), Some (ret_CreateFont_message r)),
       (SelectObject (ret_BeginPaint r) (ret_CreateFont_title r), Some (ret_SelectObject r)),
       (DrawText (ret_BeginPaint r) (UTF16PtrFromString (globalTitle g)) (- 1)
          \<lparr> Left = 10, Top = 15, Right = 390, Bottom = 45 \<rparr>
          (DT_CENTER OR DT_VCENTER OR DT_SINGLELINE), None),
       (SelectObject (ret_BeginPaint r) (ret_CreateFont_message r), None),
       (DrawText (ret_BeginPaint r) (UTF16PtrFromString (globalMessage g)) (- 1)
          \<lparr> Left = 10, Top = 50, Right = 390, Bottom = 85 \<rparr>
          (DT_CENTER OR DT_VCENTER OR DT_SINGLELINE), None),
       (SelectObject (ret_BeginPaint r) (ret_SelectObject r), None),
       (DeleteObject (ret_CreateFont_title r), None),
       (DeleteObject (ret_CreateFont_message r), None),
       (EndPaint hwnd, None)], 0)"
  by (simp add: wndProcCallback_def Let_def)

lemma wndProc_timer:
  "wndProcCallback g r hwnd WM_TIMER wParam lParam = ([(DestroyWindow hwnd, None)], 0)"
  by (simp add: wndProcCallback_def WM_TIMER_def WM_PAINT_def)

lemma wndProc_destroy:
  "wndProcCallback g r hwnd WM_DESTROY wParam lParam = ([(PostQuitMessage 0, None)], 0)"
  by (simp add: wndProcCallback_def WM_TIMER_def WM_PAINT_def WM_DESTROY_def)

lemma wndProc_default:
  "msg \<noteq> WM_PAINT \<Longrightarrow> msg \<noteq> WM_TIMER \<Longrightarrow> msg \<noteq> WM_DESTROY \<Longrightarrow>
   wndProcCallback g r hwnd msg wParam lParam =
     ([(DefWindowProc hwnd (ucast msg) wParam lParam, Some (ret_DefWindowProc r))],
      ret_DefWindowProc r)"
  by (simp add: wndProcCallback_def Let_def)

lemma os_destroy_eq:
  "os_destroy g s =
     ([(PostQuitMessage 0, None)],
      s\<lparr>win_alive := False, timer_set := False, quit_posted := True,
        inbox := filter (\<lambda>d. Hwnd (d_msg d) \<noteq> os_hwnd s) (inbox s)\<rparr>)"
  by (simp add: os_destroy_def wndProc_destroy os_plain_call_def)

lemma os_SendMessage_elsewhere:
  "\<not> (Hwnd m = os_hwnd s \<and> win_alive s) \<Longrightarrow> os_SendMessage g r s m = ([], s)"
  by (auto simp: os_SendMessage_def)

lemma os_SendMessage_paint:
  "Hwnd m = os_hwnd s \<Longrightarrow> win_alive s \<Longrightarrow> Message m = WM_PAINT \<Longrightarrow>
   os_SendMessage g r s m = (fst (wndProcCallback g r (Hwnd m) WM_PAINT (WParam m) (LParam m)), s)"
  by (simp add: os_SendMessage_def wndProc_paint os_call_def os_plain_call_def)

lemma os_SendMessage_timer:
  "Hwnd m = os_hwnd s \<Longrightarrow> win_alive s \<Longrightarrow> Message m = WM_TIMER \<Longrightarrow>
   os_SendMessage g r s m =
     ([(DestroyWindow (os_hwnd s), None), (PostQuitMessage 0, None)],
      s\<lparr>win_alive := False, timer_set := False, quit_posted := True,
        inbox := filter (\<lambda>d. Hwnd (d_msg d) \<noteq> os_hwnd s) (inbox s)\<rparr>)"
  by (simp add: os_SendMessage_def wndProc_timer os_call_def os_destroy_eq)

lemma os_SendMessage_destroy:
  "Hwnd m = os_hwnd s \<Longrightarrow> win_alive s \<Longrightarrow> Message m = WM_DESTROY \<Longrightarrow>
   os_SendMessage g r s m = ([(PostQuitMessage 0, None)], s\<lparr>quit_posted := True\<rparr>)"
  by (simp add: os_SendMessage_def wndProc_destroy os_call_def os_plain_call_def)

lemma ucast_message [simp]: "(ucast (ucast (msg :: uint32) :: uintptr) :: uint32) = msg"
  by (rule ucast_up_ucast_id) (simp add: is_up)

lemma os_SendMessage_close:
  "Hwnd m = os_hwnd s \<Longrightarrow> win_alive s \<Longrightarrow>
   Message m \<noteq> WM_PAINT \<Longrightarrow> Message m \<noteq> WM_TIMER \<Longrightarrow> Message m \<noteq> WM_DESTROY \<Longrightarrow>
   Message m = WM_CLOSE \<or> ret_DefWindowProc_closes r \<Longrightarrow>
   os_SendMessage g r s m =
     ([(DefWindowProc (os_hwnd s) (ucast (Message m)) (WParam m) (LParam m),
        Some (ret_DefWindowProc r)), (PostQuitMessage 0, None)],
      s\<lparr>win_alive := False, timer_set := False, quit_posted := True,
        inbox := filter (\<lambda>d. Hwnd (d_msg d) \<noteq> os_hwnd s) (inbox s)\<rparr>)"
  by (auto simp: os_SendMessage_def wndProc_default os_call_def os_destroy_eq)

lemma os_SendMessage_default:
  "Hwnd m = os_hwnd s \<Longrightarrow> win_alive s \<Longrightarrow>
   Message m \<noteq> WM_PAINT \<Longrightarrow> Message m \<noteq> WM_TIMER \<Longrightarrow> Message m \<noteq> WM_DESTROY \<Longrightarrow>
   Message m \<noteq> WM_CLOSE \<Longrightarrow> \<not> ret_DefWindowProc_closes r \<Longrightarrow>
   os_SendMessage g r s m =
     ([(DefWindowProc (os_hwnd s) (ucast (Message m)) (WParam m) (LParam m),
        Some (ret_DefWindowProc r))], s)"
  by (simp add: os_SendMessage_def wndProc_default os_call_def)

lemma os_DispatchMessage_timerproc:
  "Message m = WM_TIMER \<Longrightarrow> LParam m \<noteq> 0 \<Longrightarrow> os_DispatchMessage g r s m = ([], s)"
  by (simp add: os_DispatchMessage_def)

lemma os_DispatchMessage_window:
  "\<not> (Message m = WM_TIMER \<and> LParam m \<noteq> 0) \<Longrightarrow>
   os_DispatchMessage g r s m = os_SendMessage g r s m"
  by (auto simp: os_DispatchMessage_def)

text \<open>
  What a dispatch can do: leave the window manager's state as it is (the message goes
  elsewhere, or is a paint request, or gets default processing that does not close the
  window), or run one of the three paths that post the quit request.
\<close>

lemma os_DispatchMessage_cases [case_names quiet timer destroy close]:
  obtains
    (quiet) t where "os_DispatchMessage g r s m = (t, s)"
      "t = [] \<or> t = fst (wndProcCallback g r (Hwnd m) WM_PAINT (WParam m) (LParam m)) \<or>
       t = [(DefWindowProc (os_hwnd s) (ucast (Message m)) (WParam m) (LParam m),
             Some (ret_DefWindowProc r))]"
      "win_alive s \<or> t = []"
  | (timer) "Hwnd m = os_hwnd s" "win_alive s" "Message m = WM_TIMER" "LParam m = 0"
      "os_DispatchMessage g r s m =
         ([(DestroyWindow (os_hwnd s), None), (PostQuitMessage 0, None)],
          s\<lparr>win_alive := False, timer_set := False, quit_posted := True,
            inbox := filter (\<lambda>d. Hwnd (d_msg d) \<noteq> os_hwnd s) (inbox s)\<rparr>)"
  | (destroy) "Hwnd m = os_hwnd s" "win_alive s" "Message m = WM_DESTROY"
      "os_DispatchMessage g r s m = ([(PostQuitMessage 0, None)], s\<lparr>quit_posted := True\<rparr>)"
  | (close) "Hwnd m = os_hwnd s" "win_alive s"
      "Message m = WM_CLOSE \<or> ret_DefWindowProc_closes r"
      "os_DispatchMessage g r s m =
         ([(DefWindowProc (os_hwnd s) (ucast (Message m)) (WParam m) (LParam m),
            Some (ret_DefWindowProc r)), (PostQuitMessage 0, None)],
          s\<lparr>win_alive := False, timer_set := False, quit_posted := True,
            inbox := filter (\<lambda>d. Hwnd (d_msg d) \<noteq> os_hwnd s) (inbox s)\<rparr>)"
proof (cases "Message m = WM_TIMER \<and> LParam m \<noteq> 0")
  case True
  then have "os_DispatchMessage g r s m = ([], s)" by (simp add: os_DispatchMessage_timerproc)
  then show ?thesis by (rule quiet) simp_all
next
  case False
  then have eq: "os_DispatchMessage g r s m = os_SendMessage g r s m"
    by (rule os_DispatchMessage_window)
  show ?thesis
  proof (cases "Hwnd m = os_hwnd s \<and> win_alive s")
    case no: False
    then have "os_DispatchMessage g r s m = ([], s)"
      by (simp add: eq os_SendMessage_elsewhere)
    then show ?thesis by (rule quiet) simp_all
  next
    case True
    then have w: "Hwnd m = os_hwnd s" "win_alive s" by simp_all
    consider "Message m = WM_PAINT" | "Message m = WM_TIMER" | "Message m = WM_DESTROY"
      | "Message m \<noteq> WM_PAINT" "Message m \<noteq> WM_TIMER" "Message m \<noteq> WM_DESTROY"
        "Message m = WM_CLOSE \<or> ret_DefWindowProc_closes r"
      | "Message m \<noteq> WM_PAINT" "Message m \<noteq> WM_TIMER" "Message m \<noteq> WM_DESTROY"
        "Message m \<noteq> WM_CLOSE" "\<not> ret_DefWindowProc_closes r"
      by blast
    then show ?thesis
    proof cases
      case 1
      with w have "os_DispatchMessage g r s m =
          (fst (wndProcCallback g r (Hwnd m) WM_PAINT (WParam m) (LParam m)), s)"
        by (simp add: eq os_SendMessage_paint)
      then show ?thesis by (rule quiet) (simp_all add: w)
    next
      case 2
      with False have "LParam m = 0" by simp
      with w 2 show ?thesis by (intro timer) (simp_all add: eq os_SendMessage_timer)
    next
      case 3
      with w show ?thesis by (intro destroy) (simp_all add: eq os_SendMessage_destroy)
    next
      case 4
      with w show ?thesis by (intro close) (simp_all add: eq os_SendMessage_close)
    next
      case 5
      with w have "os_DispatchMessage g r s m =
          ([(DefWindowProc (os_hwnd s) (ucast (Message m)) (WParam m) (LParam m),
             Some (ret_DefWindowProc r))], s)"
        by (simp add: eq os_SendMessage_default)
      then show ?thesis by (rule quiet) (simp_all add: w)
    qed
  qed
qed

lemma quiet_events:
  assumes "t = [] \<or> t = fst (wndProcCallback g r h WM_PAINT w l) \<or>
       t = [(DefWindowProc h' m w' l', Some ret)]"
  shows "count_DestroyWindow t = 0" and "\<not> list_ex is_PostQuitMessage t"
    and "timers_set t = []"
    and "texts_drawn t = [] \<or> texts_drawn t =
     [(UTF16PtrFromString (globalTitle g), \<lparr> Left = 10, Top = 15, Right = 390, Bottom = 45 \<rparr>),
      (UTF16PtrFromString (globalMessage g), \<lparr> Left = 10, Top = 50, Right = 390, Bottom = 85 \<rparr>)]"
  using assms
  by (auto simp: wndProc_paint count_DestroyWindow_def timers_set_def texts_drawn_def)

lemma os_DispatchMessage_quiet:
  assumes "\<not> ends_overlay d"
  obtains t where "os_DispatchMessage g (d_returns d) s (d_msg d) = (t, s)"
    and "count_DestroyWindow t = 0" and "\<not> list_ex is_PostQuitMessage t"
proof (cases rule: os_DispatchMessage_cases [of g "d_returns d" s "d_msg d"])
  case (quiet t)
  with quiet_events(1,2) [OF quiet(2)] that show ?thesis by blast
qed (use assms in \<open>simp_all add: ends_overlay_def\<close>)

lemma os_DispatchMessage_effect:
  assumes "os_DispatchMessage g r s m = (t, s2)"
  shows "os_hwnd s2 = os_hwnd s \<and> length (inbox s2) \<le> length (inbox s) \<and>
     (quit_posted s \<longrightarrow> quit_posted s2) \<and>
     (win_alive s \<and> timer_set s \<longrightarrow> quit_posted s2 \<or> (win_alive s2 \<and> timer_set s2)) \<and>
     (\<not> win_alive s \<longrightarrow> s2 = s \<and> t = [])"
proof (cases rule: os_DispatchMessage_cases [of g r s m])
  case (quiet t')
  with assms have "s2 = s" "t = t'" by simp_all
  with quiet(3) show ?thesis by auto
next
  case timer
  with assms have "s2 = s\<lparr>win_alive := False, timer_set := False, quit_posted := True,
            inbox := filter (\<lambda>d. Hwnd (d_msg d) \<noteq> os_hwnd s) (inbox s)\<rparr>"
    by simp
  with timer(2) show ?thesis by simp
next
  case destroy
  with assms have "s2 = s\<lparr>quit_posted := True\<rparr>" by simp
  with destroy(2) show ?thesis by simp
next
  case close
  with assms have "s2 = s\<lparr>win_alive := False, timer_set := False, quit_posted := True,
            inbox := filter (\<lambda>d. Hwnd (d_msg d) \<noteq> os_hwnd s) (inbox s)\<rparr>"
    by simp
  with close(2) show ?thesis by simp
qed

lemma os_DispatchMessage_state:
  assumes "os_DispatchMessage g r s m = (t, s2)"
  shows "os_hwnd s2 = os_hwnd s"
    and "length (inbox s2) \<le> length (inbox s)"
    and "quit_posted s \<Longrightarrow> quit_posted s2"
    and "win_alive s \<Longrightarrow> timer_set s \<Longrightarrow> quit_posted s2 \<or> (win_alive s2 \<and> timer_set s2)"
    and "\<not> win_alive s \<Longrightarrow> s2 = s \<and> t = []"
  using os_DispatchMessage_effect [OF assms] by blast+

lemma paint_no_DestroyWindow:
  "count_DestroyWindow (fst (wndProcCallback g r h WM_PAINT w l)) = 0"
  by (simp add: wndProc_paint count_DestroyWindow_def)

lemma paint_no_PostQuitMessage:
  "\<not> list_ex is_PostQuitMessage (fst (wndProcCallback g r h WM_PAINT w l))"
  by (simp add: wndProc_paint)

lemma paint_texts_drawn:
  "texts_drawn (fst (wndProcCallback g r h WM_PAINT w l)) =
     [(UTF16PtrFromString (globalTitle g), \<lparr> Left = 10, Top = 15, Right = 390, Bottom = 45 \<rparr>),
      (UTF16PtrFromString (globalMessage g), \<lparr> Left = 10, Top = 50, Right = 390, Bottom = 85 \<rparr>)]"
  by (simp add: wndProc_paint texts_drawn_def)

declare message_loop.simps(2) [simp del]

lemma loop_inbox:
  "inbox s = d # ds \<Longrightarrow> Message (d_msg d) \<noteq> WM_QUIT \<Longrightarrow>
   message_loop (Suc n) g s =
     (let (t, s2) = os_DispatchMessage g (d_returns d) (s\<lparr>inbox := ds\<rparr>) (d_msg d)
      in case message_loop n g s2 of
           None \<Rightarrow> None
         | Some (rest, out) \<Rightarrow>
             Some ([(GetMessage, Some 1), (TranslateMessage (d_msg d), None),
                    (DispatchMessage (d_msg d), None)] @ t @ rest, out))"
  by (simp add: message_loop.simps(2) os_GetMessage_def)

lemma loop_inbox_quit:
  "inbox s = d # ds \<Longrightarrow> Message (d_msg d) = WM_QUIT \<Longrightarrow>
   message_loop (Suc n) g s = Some ([(GetMessage, Some 0)], Returned None)"
  by (simp add: message_loop.simps(2) os_GetMessage_def)

lemma loop_quit:
  "inbox s = [] \<Longrightarrow> quit_posted s \<Longrightarrow>
   message_loop (Suc n) g s = Some ([(GetMessage, Some 0)], Returned None)"
  by (simp add: message_loop.simps(2) os_GetMessage_def)

lemma loop_blocked:
  "inbox s = [] \<Longrightarrow> \<not> quit_posted s \<Longrightarrow> \<not> (win_alive s \<and> timer_set s) \<Longrightarrow>
   message_loop (Suc n) g s = Some ([(GetMessage, None)], Blocked)"
  by (auto simp: message_loop.simps(2) os_GetMessage_def)

lemma timer_delivery_dispatch:
  "win_alive s \<Longrightarrow>
   os_DispatchMessage g (d_returns (timer_delivery s)) s (d_msg (timer_delivery s)) =
     ([(DestroyWindow (os_hwnd s), None), (PostQuitMessage 0, None)],
      s\<lparr>win_alive := False, timer_set := False, quit_posted := True,
        inbox := filter (\<lambda>d. Hwnd (d_msg d) \<noteq> os_hwnd s) (inbox s)\<rparr>)"
  by (simp add: os_DispatchMessage_def os_SendMessage_timer timer_delivery_def)

lemma loop_timer:
  "inbox s = [] \<Longrightarrow> \<not> quit_posted s \<Longrightarrow> win_alive s \<Longrightarrow> timer_set s \<Longrightarrow>
   message_loop (Suc (Suc n)) g s =
     Some ([(GetMessage, Some 1), (TranslateMessage (d_msg (timer_delivery s)), None),
            (DispatchMessage (d_msg (timer_delivery s)), None),
            (DestroyWindow (os_hwnd s), None), (PostQuitMessage 0, None),
            (GetMessage, Some 0)], Returned None)"
  by (simp add: message_loop.simps(2) [of "Suc n"] os_GetMessage_def timer_delivery_dispatch
      loop_quit)

lemma loop_timer_short:
  "inbox s = [] \<Longrightarrow> \<not> quit_posted s \<Longrightarrow> win_alive s \<Longrightarrow> timer_set s \<Longrightarrow>
   message_loop (Suc 0) g s = None"
  by (simp add: message_loop.simps(2) [of 0] os_GetMessage_def timer_delivery_dispatch)

text \<open>How a run of the loop that ends can have begun.\<close>

lemma loop_Some_cases [consumes 1, case_names quit blocked timer step]:
  assumes run: "message_loop n g s = Some (evs, out)"
  obtains
    (quit) "evs = [(GetMessage, Some 0)]" "out = Returned None"
      "quit_posted s \<or> list_ex ends_overlay (inbox s)"
  | (blocked) "inbox s = []" "\<not> quit_posted s" "\<not> (win_alive s \<and> timer_set s)"
      "evs = [(GetMessage, None)]" "out = Blocked"
  | (timer) "inbox s = []" "\<not> quit_posted s" "win_alive s" "timer_set s"
      "evs = [(GetMessage, Some 1), (TranslateMessage (d_msg (timer_delivery s)), None),
              (DispatchMessage (d_msg (timer_delivery s)), None),
              (DestroyWindow (os_hwnd s), None), (PostQuitMessage 0, None),
              (GetMessage, Some 0)]" "out = Returned None"
  | (step) k d ds t s2 rest where "n = Suc k" "inbox s = d # ds" "Message (d_msg d) \<noteq> WM_QUIT"
      "os_DispatchMessage g (d_returns d) (s\<lparr>inbox := ds\<rparr>) (d_msg d) = (t, s2)"
      "message_loop k g s2 = Some (rest, out)"
      "evs = [(GetMessage, Some 1), (TranslateMessage (d_msg d), None),
              (DispatchMessage (d_msg d), None)] @ t @ rest"
proof (cases n)
  case 0
  with run show ?thesis by simp
next
  case (Suc k)
  show ?thesis
  proof (cases "inbox s")
    case Nil
    show ?thesis
    proof (cases "quit_posted s")
      case True
      with run Suc Nil show ?thesis by (intro quit) (simp_all add: loop_quit)
    next
      case False
      show ?thesis
      proof (cases "win_alive s \<and> timer_set s")
        case no: False
        with run Suc Nil False show ?thesis by (intro blocked) (simp_all add: loop_blocked)
      next
        case True
        show ?thesis
        proof (cases k)
          case 0
          with run Suc Nil False True show ?thesis by (simp add: loop_timer_short)
        next
          case j: (Suc j)
          with run Suc Nil False True show ?thesis by (intro timer) (simp_all add: loop_timer)
        qed
      qed
    qed
  next
    case (Cons d ds)
    show ?thesis
    proof (cases "Message (d_msg d) = WM_QUIT")
      case True
      with run Suc Cons show ?thesis
        by (intro quit) (simp_all add: loop_inbox_quit ends_overlay_def)
    next
      case False
      obtain t s2 where send: "os_DispatchMessage g (d_returns d) (s\<lparr>inbox := ds\<rparr>) (d_msg d) = (t, s2)"
        by force
      with run Suc Cons False obtain rest where "message_loop k g s2 = Some (rest, out)"
        "evs = [(GetMessage, Some 1), (TranslateMessage (d_msg d), None),
                (DispatchMessage (d_msg d), None)] @ t @ rest"
        by (auto simp: loop_inbox split: option.splits)
      with Suc Cons False send show ?thesis by (intro step)
    qed
  qed
qed

lemma count_DestroyWindow_append:
  "count_DestroyWindow (a @ b) = count_DestroyWindow a + count_DestroyWindow b"
  by (simp add: count_DestroyWindow_def)





lemma loop_terminates:
  "quit_posted s \<or> (win_alive s \<and> timer_set s) \<Longrightarrow> length (inbox s) + 2 \<le> n \<Longrightarrow>
   \<exists>evs. message_loop n g s = Some (evs, Returned None) \<and> evs \<noteq> [] \<and>
      last evs = (GetMessage, Some 0)"
proof (induction n arbitrary: s)
  case 0
  then show ?case by simp
next
  case (Suc n)
  show ?case
  proof (cases "inbox s")
    case Nil
    show ?thesis
    proof (cases "quit_posted s")
      case True
      with Nil show ?thesis by (simp add: loop_quit)
    next
      case False
      with Suc.prems have live: "win_alive s" "timer_set s" by auto
      from Suc.prems Nil obtain k where "n = Suc k" by (cases n) auto
      with loop_timer [OF Nil False live, of k g] show ?thesis by simp
    qed
  next
    case (Cons d ds)
    show ?thesis
    proof (cases "Message (d_msg d) = WM_QUIT")
      case True
      with Cons show ?thesis by (simp add: loop_inbox_quit)
    next
      case False
      let ?s1 = "s\<lparr>inbox := ds\<rparr>"
      obtain t s2 where send: "os_DispatchMessage g (d_returns d) ?s1 (d_msg d) = (t, s2)"
        by force
      from os_DispatchMessage_state(3,4) [OF send] Suc.prems(1)
      have inv: "quit_posted s2 \<or> (win_alive s2 \<and> timer_set s2)" by auto
      from os_DispatchMessage_state(2) [OF send] Suc.prems(2) Cons
      have fuel: "length (inbox s2) + 2 \<le> n" by simp
      from Suc.IH [OF inv fuel] obtain evs where
        "message_loop n g s2 = Some (evs, Returned None)" "evs \<noteq> []"
        "last evs = (GetMessage, Some 0)"
        by blast
      then show ?thesis
        by (simp add: loop_inbox [OF Cons False] send)
    qed
  qed
qed

text \<open>Once the window is gone, the window procedure is not called again.\<close>

lemma loop_dead:
  "\<not> win_alive s \<Longrightarrow> message_loop n g s = Some (evs, out) \<Longrightarrow> list_all is_loop_call evs"
proof (induction n arbitrary: s evs)
  case 0
  then show ?case by simp
next
  case (Suc n)
  from Suc.prems(2) show ?case
  proof (cases rule: loop_Some_cases)
    case (step k d ds t s2 rest)
    from Suc.prems(1) have "\<not> win_alive (s\<lparr>inbox := ds\<rparr>)" by simp
    from os_DispatchMessage_state(5) [OF step(4) this]
    have "s2 = s\<lparr>inbox := ds\<rparr>" "t = []" by simp_all
    with Suc.IH [of s2 rest] Suc.prems(1) step show ?thesis by simp
  qed (use Suc.prems(1) in simp_all)
qed

lemma loop_no_error:
  "message_loop n g s = Some (evs, out) \<Longrightarrow> out = Returned None \<or> out = Blocked"
proof (induction n arbitrary: s evs)
  case 0
  then show ?case by simp
next
  case (Suc n)
  from Suc.prems show ?case
  proof (cases rule: loop_Some_cases)
    case (step k d ds t s2 rest)
    with Suc.IH [of s2 rest] show ?thesis by simp
  qed simp_all
qed

text \<open>
  The normal course: nothing queued ends the overlay, so the queued messages are handled
  one by one and then the timer's message arrives.
\<close>

lemma loop_timer_chain:
  assumes "win_alive s" "timer_set s" "\<not> quit_posted s"
    and "\<not> list_ex ends_overlay (inbox s)"
    and "message_loop n g s = Some (evs, out)"
  shows "out = Returned None \<and>
     (\<exists>pre. evs = pre @
          [(GetMessage, Some 1), (TranslateMessage (d_msg (timer_delivery s)), None),
           (DispatchMessage (d_msg (timer_delivery s)), None),
           (DestroyWindow (os_hwnd s), None), (PostQuitMessage 0, None),
           (GetMessage, Some 0)] \<and>
        count_DestroyWindow pre = 0 \<and> \<not> list_ex is_PostQuitMessage pre)"
  using assms
proof (induction n arbitrary: s evs)
  case 0
  then show ?case by simp
next
  case (Suc n)
  from Suc.prems(5) show ?case
  proof (cases rule: loop_Some_cases)
    case quit
    with Suc.prems(3,4) show ?thesis by simp
  next
    case blocked
    with Suc.prems(1,2) show ?thesis by simp
  next
    case timer
    then have "evs = [] @
          [(GetMessage, Some 1), (TranslateMessage (d_msg (timer_delivery s)), None),
           (DispatchMessage (d_msg (timer_delivery s)), None),
           (DestroyWindow (os_hwnd s), None), (PostQuitMessage 0, None),
           (GetMessage, Some 0)]" by simp
    moreover have "count_DestroyWindow [] = 0" "\<not> list_ex is_PostQuitMessage []"
      by (simp_all add: count_DestroyWindow_def)
    ultimately show ?thesis using timer(6) by blast
  next
    case (step k d ds t s2 rest)
    let ?s1 = "s\<lparr>inbox := ds\<rparr>"
    from Suc.prems(4) step(2) have quiet: "\<not> ends_overlay d" and rest_quiet: "\<not> list_ex ends_overlay (inbox ?s1)"
      by simp_all
    from os_DispatchMessage_quiet [OF quiet, of g ?s1] step(4)
    have s2: "s2 = ?s1" and t: "count_DestroyWindow t = 0" "\<not> list_ex is_PostQuitMessage t"
      by auto
    from Suc.prems(1-3) have st: "win_alive ?s1" "timer_set ?s1" "\<not> quit_posted ?s1" by simp_all
    from step(1,5) s2 have run: "message_loop n g ?s1 = Some (rest, out)" by simp
    have td: "timer_delivery ?s1 = timer_delivery s" "os_hwnd ?s1 = os_hwnd s"
      by (simp_all add: timer_delivery_def)
    from Suc.IH [OF st rest_quiet run] obtain pre where
      ih: "out = Returned None"
        "rest = pre @
          [(GetMessage, Some 1), (TranslateMessage (d_msg (timer_delivery s)), None),
           (DispatchMessage (d_msg (timer_delivery s)), None),
           (DestroyWindow (os_hwnd s), None), (PostQuitMessage 0, None),
           (GetMessage, Some 0)]"
        "count_DestroyWindow pre = 0" "\<not> list_ex is_PostQuitMessage pre"
      unfolding td by blast
    let ?pre = "[(GetMessage, Some 1), (TranslateMessage (d_msg d), None),
                 (DispatchMessage (d_msg d), None)] @ t @ pre"
    from step(6) ih(2) have "evs = ?pre @
          [(GetMessage, Some 1), (TranslateMessage (d_msg (timer_delivery s)), None),
           (DispatchMessage (d_msg (timer_delivery s)), None),
           (DestroyWindow (os_hwnd s), None), (PostQuitMessage 0, None),
           (GetMessage, Some 0)]" by simp
    moreover from t ih(3) have "count_DestroyWindow ?pre = 0"
      by (simp add: count_DestroyWindow_append) (simp add: count_DestroyWindow_def)
    moreover from t ih(4) have "\<not> list_ex is_PostQuitMessage ?pre" by simp
    ultimately show ?thesis using ih(1) by blast
  qed
qed


lemma loop_stays_blocked:
  assumes "win_alive s" "\<not> timer_set s" "\<not> quit_posted s"
    and "\<not> list_ex ends_overlay (inbox s)"
    and "length (inbox s) < n"
  shows "\<exists>evs. message_loop n g s = Some (evs, Blocked) \<and> count_DestroyWindow evs = 0 \<and>
     \<not> list_ex is_PostQuitMessage evs"
  using assms
proof (induction n arbitrary: s)
  case 0
  then show ?case by simp
next
  case (Suc n)
  show ?case
  proof (cases "inbox s")
    case Nil
    with Suc.prems show ?thesis
      by (simp add: loop_blocked count_DestroyWindow_def)
  next
    case (Cons d ds)
    let ?s1 = "s\<lparr>inbox := ds\<rparr>"
    from Suc.prems(4) Cons have quiet: "\<not> ends_overlay d"
      and rest_quiet: "\<not> list_ex ends_overlay (inbox ?s1)"
      by simp_all
    from quiet have nq: "Message (d_msg d) \<noteq> WM_QUIT" by (simp add: ends_overlay_def)
    from Suc.prems(1-3) have st: "win_alive ?s1" "\<not> timer_set ?s1" "\<not> quit_posted ?s1"
      by simp_all
    from Suc.prems(5) Cons have "length (inbox ?s1) < n" by simp
    from Suc.IH [OF st rest_quiet this] obtain rest where
      rest: "message_loop n g ?s1 = Some (rest, Blocked)" "count_DestroyWindow rest = 0"
        "\<not> list_ex is_PostQuitMessage rest"
      by blast
    from os_DispatchMessage_quiet [OF quiet, of g ?s1] obtain t where
      t: "os_DispatchMessage g (d_returns d) ?s1 (d_msg d) = (t, ?s1)"
        "count_DestroyWindow t = 0" "\<not> list_ex is_PostQuitMessage t"
      by blast
    with rest show ?thesis
      by (simp add: loop_inbox [OF Cons nq] count_DestroyWindow_append)
        (simp add: count_DestroyWindow_def)
  qed
qed






lemma showOSD_failed:
  "env_CreateWindowEx env = 0 \<Longrightarrow>
   showOSD fuel env g title message duration =
     Some (create_events env, Returned (Some ''CreateWindowEx failed''))"
  by (simp add: showOSD_def create_events_def Let_def)

lemma showOSD_created:
  "env_CreateWindowEx env \<noteq> 0 \<Longrightarrow>
   showOSD fuel env g title message duration =
     (case message_loop fuel g (loop_start env) of
        None \<Rightarrow> None
      | Some (rest, out) \<Rightarrow>
          Some (create_events env @ show_events env g @ timer_events env duration @ rest, out))"
  by (simp add: showOSD_def create_events_def show_events_def timer_events_def loop_start_def
      os_SendMessage_paint Let_def split: option.split)

lemma showOSD_created_Some:
  assumes "env_CreateWindowEx env \<noteq> 0"
    and "showOSD fuel env g title message duration = Some (evs, out)"
  obtains rest where "message_loop fuel g (loop_start env) = Some (rest, out)"
    and "evs = create_events env @ show_events env g @ timer_events env duration @ rest"
  using assms by (auto simp: showOSD_created split: option.splits)

section \<open>The binary64 product is the integer 15 percent\<close>

declare bit_length.simps [simp del]

lemma bit_length_upper: "n < 2 ^ bit_length n"
proof (induction n rule: bit_length.induct)
  case (1 n)
  show ?case
  proof (cases "n = 0")
    case True
    then show ?thesis by (simp add: bit_length.simps)
  next
    case False
    with 1 have "n div 2 < 2 ^ bit_length (n div 2)" by simp
    then have "n < 2 * 2 ^ bit_length (n div 2)" by linarith
    with False show ?thesis by (simp add: bit_length.simps [of n])
  qed
qed

lemma bit_length_lower: "0 < n \<Longrightarrow> 2 ^ (bit_length n - 1) \<le> n"
proof (induction n rule: bit_length.induct)
  case (1 n)
  show ?case
  proof (cases "n div 2 = 0")
    case True
    with 1 have "n = 1" by linarith
    then show ?thesis by (simp add: bit_length.simps)
  next
    case False
    with 1 have ih: "2 ^ (bit_length (n div 2) - 1) \<le> n div 2" by simp
    from False have pos: "0 < bit_length (n div 2)" by (simp add: bit_length.simps [of "n div 2"])
    have "bit_length n = Suc (bit_length (n div 2))"
      using 1(2) by (simp add: bit_length.simps [of n])
    then have "(2::nat) ^ (bit_length n - 1) = 2 * 2 ^ (bit_length (n div 2) - 1)"
      using pos by (cases "bit_length (n div 2)") simp_all
    with ih show ?thesis by linarith
  qed
qed

lemma bit_length_le: "n < 2 ^ k \<Longrightarrow> bit_length n \<le> k"
proof (rule ccontr)
  assume lt: "n < 2 ^ k" and "\<not> bit_length n \<le> k"
  then have k: "k \<le> bit_length n - 1" by simp
  have "0 < n" using \<open>\<not> bit_length n \<le> k\<close> by (cases "n = 0") (simp_all add: bit_length.simps)
  from bit_length_lower [OF this] have "2 ^ (bit_length n - 1) \<le> n" .
  moreover from k have "(2::nat) ^ k \<le> 2 ^ (bit_length n - 1)" by (rule power_increasing) simp
  ultimately show False using lt by linarith
qed

lemma round53_exact: "bit_length n \<le> 53 \<Longrightarrow> round53 n = n"
  by (simp add: round53_def)

lemma round53_small: "n < 2 ^ 53 \<Longrightarrow> round53 n = n"
  using bit_length_le [of n 53] by (simp add: round53_def)

lemma round53_error:
  assumes "53 < bit_length n"
  shows "round53 n \<le> n + 2 ^ (bit_length n - 54)" and "n \<le> round53 n + 2 ^ (bit_length n - 54)"
proof -
  define sh where "sh = bit_length n - 53"
  define P :: nat where "P = 2 ^ sh"
  define half :: nat where "half = 2 ^ (sh - 1)"
  define q where "q = n div P"
  define r where "r = n mod P"
  from assms have sh: "0 < sh" by (simp add: sh_def)
  then have P: "P = 2 * half" by (cases sh) (simp_all add: P_def half_def)
  have n: "n = q * P + r" by (simp add: q_def r_def)
  have r: "r < P" by (simp add: r_def P_def)
  have h54: "bit_length n - 54 = sh - 1" by (simp add: sh_def)
  have R: "round53 n = (if half < r \<or> (r = half \<and> odd q) then q + 1 else q) * P"
    using assms by (simp add: round53_def Let_def sh_def P_def half_def q_def r_def)
  show "round53 n \<le> n + 2 ^ (bit_length n - 54)"
    unfolding h54 half_def [symmetric] R using n r P by (auto simp: algebra_simps)
  show "n \<le> round53 n + 2 ^ (bit_length n - 54)"
    unfolding h54 half_def [symmetric] R using n r P by (auto simp: algebra_simps)
qed

lemma round53_nearest:
  assumes b: "53 < bit_length n"
    and dvd: "2 ^ (bit_length n - 53) dvd t"
    and close: "n + d = t" "d < 2 ^ (bit_length n - 54)"
  shows "round53 n = t"
proof -
  define sh where "sh = bit_length n - 53"
  define P :: nat where "P = 2 ^ sh"
  define half :: nat where "half = 2 ^ (sh - 1)"
  from b have sh: "0 < sh" by (simp add: sh_def)
  then have P: "P = 2 * half" by (cases sh) (simp_all add: P_def half_def)
  have h54: "bit_length n - 54 = sh - 1" by (simp add: sh_def)
  have hpos: "0 < half" by (simp add: half_def)
  from dvd obtain c where c: "t = c * P" by (auto simp: sh_def P_def dvd_def mult.commute)
  have R: "round53 n = (if half < n mod P \<or> (n mod P = half \<and> odd (n div P)) then n div P + 1 else n div P) * P"
    using b by (simp add: round53_def Let_def sh_def P_def half_def)
  from close have d: "d < half" by (simp add: h54 half_def)
  show ?thesis
  proof (cases "d = 0")
    case True
    with close c have "n = c * P" by simp
    with hpos P show ?thesis unfolding R c by simp
  next
    case False
    with close c d P have "0 < c" by (cases c) auto
    then obtain c' where c': "c = Suc c'" by (cases c) auto
    from close c c' have n: "n = c' * P + (P - d)" using d P by (simp add: algebra_simps)
    have lt: "P - d < P" using False hpos P by simp
    from n lt have dv: "n div P = c'" and md: "n mod P = P - d" by simp_all
    have "half < P - d" using d P by simp
    then show ?thesis unfolding R c c' dv md by simp
  qed
qed

lemma f64_015_times_20: "20 * f64_015 + 4 = 3 * 2 ^ 55"
  by (simp add: f64_015_def)

lemma fifteen_percent:
  assumes h: "h < 2 ^ 32"
  shows "round53 (round53 h * f64_015) div 2 ^ 55 = 3 * h div 20"
proof -
  define N where "N = h * f64_015"
  define n where "n = 3 * h div 20"
  define rho where "rho = 3 * h mod 20"
  have h3: "3 * h = 20 * n + rho" and rho: "rho < 20" by (simp_all add: n_def rho_def)
  from h have rh: "round53 h = h" by (intro round53_small) simp
  have key: "20 * N + 4 * h = (20 * n + rho) * 2 ^ 55"
  proof -
    have "20 * N + 4 * h = h * (20 * f64_015 + 4)" by (simp add: N_def algebra_simps)
    also have "\<dots> = 3 * h * 2 ^ 55" by (simp add: f64_015_times_20)
    finally show ?thesis by (simp only: h3)
  qed
  have goal: "round53 N div 2 ^ 55 = n"
  proof (cases "bit_length N \<le> 53")
    case True
    then have R: "round53 N = N" by (rule round53_exact)
    have "N < 2 ^ bit_length N" by (rule bit_length_upper)
    also from True have "(2::nat) ^ bit_length N \<le> 2 ^ 53" by (rule power_increasing) simp
    finally have "N < 2 ^ 53" .
    then have "h \<le> 1" by (simp add: N_def f64_015_def)
    then have "n = 0" by (simp add: n_def)
    moreover from \<open>N < 2 ^ 53\<close> have "N div 2 ^ 55 = 0" by simp
    ultimately show ?thesis by (simp add: R)
  next
    case False
    then have b: "53 < bit_length N" by simp
    define sh where "sh = bit_length N - 53"
    define half :: nat where "half = 2 ^ (sh - 1)"
    have h54: "bit_length N - 54 = sh - 1" by (simp add: sh_def)
    from h have "N < 2 ^ 85" by (simp add: N_def f64_015_def)
    then have "bit_length N \<le> 85" by (rule bit_length_le)
    then have sh32: "sh \<le> 32" by (simp add: sh_def)
    then have "sh - 1 \<le> 31" by simp
    then have "(2::nat) ^ (sh - 1) \<le> 2 ^ 31" by (rule power_increasing) simp
    then have half: "half \<le> 2147483648" by (simp add: half_def)
    from round53_error [OF b]
    have err: "round53 N \<le> N + half" "N \<le> round53 N + half"
      by (simp_all add: h54 half_def)
    show ?thesis
    proof (cases "rho = 0")
      case False
      from key False h have lo: "n * 2 ^ 55 + 2147483648 \<le> N" by simp
      from key rho h have hi: "N + 2147483648 < (n + 1) * 2 ^ 55" by simp
      from lo err half have "n * 2 ^ 55 \<le> round53 N" by linarith
      moreover from hi err half have "round53 N < (n + 1) * 2 ^ 55" by linarith
      ultimately show ?thesis
        by (intro div_nat_eqI) (simp_all add: algebra_simps)
    next
      case True
      with key have k0: "20 * N + 4 * h = 20 * n * 2 ^ 55" by simp
      from h3 True have "3 * h = 20 * n" by simp
      then have "5 dvd h" by presburger
      then obtain d where d: "h = 5 * d" by (auto simp: dvd_def)
      from k0 d have close: "N + d = n * 2 ^ 55" by simp
      have "0 < N" using b by (cases "N = 0") (simp_all add: bit_length.simps)
      have "N < 2 ^ bit_length N" by (rule bit_length_upper)
      also have "bit_length N = Suc (Suc sh) + 51" using b by (simp add: sh_def)
      finally have "N < 4 * 2 ^ sh * 2 ^ 51" by (simp add: power_add)
      moreover have "(2::nat) ^ sh = 2 * half"
        using b by (cases sh) (simp_all add: half_def sh_def)
      ultimately have "N < 8 * half * 2 ^ 51" by simp
      then have "h * 2 ^ 52 < 8 * half * 2 ^ 51" by (simp add: N_def f64_015_def)
      then have "d < half" using d by simp
      then have dlt: "d < 2 ^ (bit_length N - 54)" by (simp add: h54 half_def)
      have "(2::nat) ^ sh dvd 2 ^ 55" using sh32 by (intro le_imp_power_dvd) simp
      then have dv: "2 ^ (bit_length N - 53) dvd n * 2 ^ 55" by (simp add: sh_def)
      from round53_nearest [OF b dv close dlt] show ?thesis by simp
    qed
  qed
  show ?thesis unfolding rh N_def [symmetric] n_def [symmetric] by (rule goal)
qed

section \<open>The claims about the window procedure\<close>

lemma live_objects_append:
  "live_objects live (a @ b) = live_objects (live_objects live a) b"
  by (simp add: live_objects_def)

lemma paint_live_objects:
  "live_objects live (fst (wndProcCallback g r hwnd WM_PAINT wParam lParam)) = live"
  by (simp add: wndProc_paint live_objects_def gdi_step_def)

lemma repaints_live_objects:
  "live_objects live (repaints g hwnd rs) = live"
proof (induction rs arbitrary: live)
  case Nil
  show ?case by (simp add: repaints_def live_objects_def)
next
  case (Cons r rs)
  have "repaints g hwnd (r # rs) = fst (wndProcCallback g r hwnd WM_PAINT 0 0) @ repaints g hwnd rs"
    by (simp add: repaints_def)
  then show ?case
    by (simp only: live_objects_append paint_live_objects Cons.IH)
qed

text \<open>
  C5: in every paint response the three objects created (background brush, title font,
  message font) are exactly the objects deleted, the paint context begun for the window
  is ended for it as the last call of the response, and the set of GDI objects in
  existence is the same after the response as before it, whatever the OS returned to
  the calls in between (failures included: no result of a drawing call is read); the
  same holds after any number of consecutive repaints.
\<close>

theorem paint_resources_balanced:
  "objects_created (fst (wndProcCallback g r hwnd WM_PAINT wParam lParam))
     = [ret_CreateSolidBrush r, ret_CreateFont_title r, ret_CreateFont_message r] \<and>
   objects_deleted (fst (wndProcCallback g r hwnd WM_PAINT wParam lParam))
     = objects_created (fst (wndProcCallback g r hwnd WM_PAINT wParam lParam)) \<and>
   paints_begun (fst (wndProcCallback g r hwnd WM_PAINT wParam lParam)) = [hwnd] \<and>
   paints_ended (fst (wndProcCallback g r hwnd WM_PAINT wParam lParam)) = [hwnd] \<and>
   last (fst (wndProcCallback g r hwnd WM_PAINT wParam lParam)) = (EndPaint hwnd, None) \<and>
   live_objects live (fst (wndProcCallback g r hwnd WM_PAINT wParam lParam)) = live \<and>
   live_objects live (repaints g hwnd rs) = live \<and>
   length (objects_created (repaints g hwnd rs)) = length (objects_deleted (repaints g hwnd rs)) \<and>
   paints_begun (repaints g hwnd rs) = paints_ended (repaints g hwnd rs)"
proof -
  have one: "objects_created (fst (wndProcCallback g r hwnd WM_PAINT wParam lParam))
     = [ret_CreateSolidBrush r, ret_CreateFont_title r, ret_CreateFont_message r]"
    "objects_deleted (fst (wndProcCallback g r hwnd WM_PAINT wParam lParam))
     = [ret_CreateSolidBrush r, ret_CreateFont_title r, ret_CreateFont_message r]"
    "paints_begun (fst (wndProcCallback g r hwnd WM_PAINT wParam lParam)) = [hwnd]"
    "paints_ended (fst (wndProcCallback g r hwnd WM_PAINT wParam lParam)) = [hwnd]"
    "last (fst (wndProcCallback g r hwnd WM_PAINT wParam lParam)) = (EndPaint hwnd, None)"
    by (simp_all add: wndProc_paint objects_created_def objects_deleted_def paints_begun_def
        paints_ended_def)
  have many: "length (objects_created (repaints g hwnd rs)) = length (objects_deleted (repaints g hwnd rs))"
    "paints_begun (repaints g hwnd rs) = paints_ended (repaints g hwnd rs)"
    by (induction rs)
      (simp_all add: repaints_def wndProc_paint objects_created_def objects_deleted_def
        paints_begun_def paints_ended_def)
  from one many paint_live_objects repaints_live_objects show ?thesis by simp
qed

text \<open>
  C9: \<open>ShowModeChange\<close> never reads \<open>iconPath\<close>: two calls that differ only in it give the
  same package variables, the same events (the texts drawn among them) and the same result.
\<close>

theorem ShowModeChange_ignores_iconPath:
  "ShowModeChange fuel env g n modeName p1 = ShowModeChange fuel env g n modeName p2"
  by (simp add: ShowModeChange_def)

section \<open>Window geometry\<close>

lemma sint_small:
  fixes w :: uintptr
  assumes u: "uint w < 2 ^ 32"
  shows "sint w = uint w"
proof -
  have "- 9223372036854775808 \<le> uint w"
    using uint_ge_0 [of w] by linarith
  moreover from u have "uint w < 9223372036854775808" by simp
  ultimately have "- (2 ^ 63) \<le> uint w" "uint w < 2 ^ 63" by simp_all
  then have "signed_take_bit 63 (uint w) = uint w"
    by (rule signed_take_bit_int_eq_self)
  then show ?thesis by (simp add: sint_uint)
qed

lemma sint_sub_400:
  fixes w :: uintptr
  assumes u: "uint w < 2 ^ 32"
  shows "sint (w - 400) = uint w - 400"
proof -
  have "sint (w - 400) = signed_take_bit 63 (sint w - sint (400 :: uintptr))"
    by (simp add: sint_word_ariths)
  also have "\<dots> = signed_take_bit 63 (uint w - 400)"
    by (simp add: sint_small [OF u])
  also have "\<dots> = uint w - 400"
  proof -
    have "- 9223372036854775808 \<le> uint w - 400"
      using uint_ge_0 [of w] by linarith
    moreover from u have "uint w - 400 < 9223372036854775808" by simp
    ultimately have "- (2 ^ 63) \<le> uint w - 400" "uint w - 400 < 2 ^ 63" by simp_all
    then show ?thesis by (rule signed_take_bit_int_eq_self)
  qed
  finally show ?thesis .
qed

lemma unat_small:
  fixes w :: uintptr
  assumes u: "uint w < 2 ^ 32"
  shows "unat w < 2 ^ 32"
proof -
  from u have "uint w < 4294967296" by simp
  then have "nat (uint w) < 4294967296" by linarith
  then have "unat w < 4294967296" by (simp only: unat_eq_nat_uint)
  then show ?thesis by simp
qed

lemma osdX_of_small:
  "uint w < 2 ^ 32 \<Longrightarrow> osdX_of w = go_quo (uint w - 400) 2"
  by (simp add: osdX_of_def sint_sub_400)

lemma osdY_of_small:
  assumes "uint h < 2 ^ 32"
  shows "osdY_of h = uint h - 3 * uint h div 20"
proof -
  have "int (3 * unat h div 20) = 3 * uint h div 20"
    by (simp add: zdiv_int)
  with fifteen_percent [OF unat_small [OF assms]] sint_small [OF assms] show ?thesis
    by (simp add: osdY_of_def int_of_15_percent_def)
qed

lemma go_quo_2_centred:
  "0 \<le> a \<Longrightarrow> 2 * go_quo a 2 \<le> a \<and> a \<le> 2 * go_quo a 2 + 1"
proof -
  assume "0 \<le> a"
  then have "go_quo a 2 = a div 2" by (cases "a = 0") (simp_all add: go_quo_def)
  then show ?thesis by presburger
qed

section \<open>Runs of showOSD\<close>

lemma prefix_no_DestroyWindow:
  "count_DestroyWindow (create_events env @ show_events env g @ timer_events env duration) = 0"
  using paint_no_DestroyWindow [of g "env_UpdateWindow env" "env_CreateWindowEx env" 0 0]
  by (simp add: create_events_def show_events_def timer_events_def count_DestroyWindow_def)

lemma prefix_no_PostQuitMessage:
  "\<not> list_ex is_PostQuitMessage (create_events env @ show_events env g @ timer_events env duration)"
  using paint_no_PostQuitMessage [of g "env_UpdateWindow env" "env_CreateWindowEx env" 0 0]
  by (simp add: create_events_def show_events_def timer_events_def)

lemma loop_start_simps [simp]:
  "os_hwnd (loop_start env) = env_CreateWindowEx env"
  "win_alive (loop_start env)"
  "timer_set (loop_start env) = (env_SetTimer env \<noteq> 0)"
  "\<not> quit_posted (loop_start env)"
  "inbox (loop_start env) = env_inbox env"
  by (simp_all add: loop_start_def)

lemma timer_message_loop_start:
  "d_msg (timer_delivery (loop_start env)) =
     \<lparr> Hwnd = env_CreateWindowEx env, Message = WM_TIMER, WParam = 1, LParam = 0, Time = 0,
       Pt = \<lparr> X = 0, Y = 0 \<rparr> \<rparr>"
  by (simp add: timer_delivery_def)

lemma showOSD_returns:
  assumes "env_CreateWindowEx env \<noteq> 0" "env_SetTimer env \<noteq> 0"
    and "length (env_inbox env) + 2 \<le> fuel"
  shows "\<exists>evs. showOSD fuel env g title message duration = Some (evs, Returned None) \<and>
     last evs = (GetMessage, Some 0)"
proof -
  have "quit_posted (loop_start env) \<or> (win_alive (loop_start env) \<and> timer_set (loop_start env))"
    using assms(2) by simp
  moreover have "length (inbox (loop_start env)) + 2 \<le> fuel"
    using assms(3) by simp
  ultimately obtain rest where
    rest: "message_loop fuel g (loop_start env) = Some (rest, Returned None)" "rest \<noteq> []"
      "last rest = (GetMessage, Some 0)"
    using loop_terminates [of "loop_start env" fuel g] by auto
  let ?evs = "create_events env @ show_events env g @ timer_events env duration @ rest"
  from rest(1) assms(1)
  have "showOSD fuel env g title message duration = Some (?evs, Returned None)"
    by (simp add: showOSD_created)
  moreover from rest(2,3) have "last ?evs = (GetMessage, Some 0)" by simp
  ultimately show ?thesis by blast
qed

text \<open>
  The normal course of a run: window created, timer armed, nothing queued that ends the
  overlay. The run then ends with the timer's message, the destroy request, the quit
  request and the \<open>GetMessage\<close> that returns 0, and nothing before that stretch
  destroys the window or posts a quit request.
\<close>

lemma showOSD_timer_chain:
  assumes "env_CreateWindowEx env \<noteq> 0" "env_SetTimer env \<noteq> 0"
    and "\<not> list_ex ends_overlay (env_inbox env)"
    and "showOSD fuel env g title message duration = Some (evs, out)"
  shows "out = Returned None \<and>
     (\<exists>pre. evs = pre @
        [(GetMessage, Some 1),
         (TranslateMessage \<lparr> Hwnd = env_CreateWindowEx env, Message = WM_TIMER, WParam = 1,
            LParam = 0, Time = 0, Pt = \<lparr> X = 0, Y = 0 \<rparr> \<rparr>, None),
         (DispatchMessage \<lparr> Hwnd = env_CreateWindowEx env, Message = WM_TIMER, WParam = 1,
            LParam = 0, Time = 0, Pt = \<lparr> X = 0, Y = 0 \<rparr> \<rparr>, None),
         (DestroyWindow (env_CreateWindowEx env), None), (PostQuitMessage 0, None),
         (GetMessage, Some 0)] \<and>
        count_DestroyWindow pre = 0 \<and> \<not> list_ex is_PostQuitMessage pre)"
proof -
  from showOSD_created_Some [OF assms(1,4)] obtain rest where
    rest: "message_loop fuel g (loop_start env) = Some (rest, out)"
      "evs = create_events env @ show_events env g @ timer_events env duration @ rest"
    by blast
  have "win_alive (loop_start env)" "timer_set (loop_start env)" "\<not> quit_posted (loop_start env)"
    "\<not> list_ex ends_overlay (inbox (loop_start env))"
    using assms(2,3) by simp_all
  from loop_timer_chain [OF this rest(1)] obtain pre where
    chain: "out = Returned None"
      "rest = pre @
        [(GetMessage, Some 1),
         (TranslateMessage \<lparr> Hwnd = env_CreateWindowEx env, Message = WM_TIMER, WParam = 1,
            LParam = 0, Time = 0, Pt = \<lparr> X = 0, Y = 0 \<rparr> \<rparr>, None),
         (DispatchMessage \<lparr> Hwnd = env_CreateWindowEx env, Message = WM_TIMER, WParam = 1,
            LParam = 0, Time = 0, Pt = \<lparr> X = 0, Y = 0 \<rparr> \<rparr>, None),
         (DestroyWindow (env_CreateWindowEx env), None), (PostQuitMessage 0, None),
         (GetMessage, Some 0)]"
      "count_DestroyWindow pre = 0" "\<not> list_ex is_PostQuitMessage pre"
    unfolding timer_message_loop_start loop_start_simps by blast
  let ?pfx = "create_events env @ show_events env g @ timer_events env duration"
  from rest(2) chain(2) have "evs = (?pfx @ pre) @
        [(GetMessage, Some 1),
         (TranslateMessage \<lparr> Hwnd = env_CreateWindowEx env, Message = WM_TIMER, WParam = 1,
            LParam = 0, Time = 0, Pt = \<lparr> X = 0, Y = 0 \<rparr> \<rparr>, None),
         (DispatchMessage \<lparr> Hwnd = env_CreateWindowEx env, Message = WM_TIMER, WParam = 1,
            LParam = 0, Time = 0, Pt = \<lparr> X = 0, Y = 0 \<rparr> \<rparr>, None),
         (DestroyWindow (env_CreateWindowEx env), None), (PostQuitMessage 0, None),
         (GetMessage, Some 0)]"
    by simp
  moreover from chain(3) prefix_no_DestroyWindow [of env g duration]
  have "count_DestroyWindow (?pfx @ pre) = 0"
    by (simp only: count_DestroyWindow_append)
  moreover from chain(4) prefix_no_PostQuitMessage [of env g duration]
  have "\<not> list_ex is_PostQuitMessage (?pfx @ pre)"
    by (simp only: list_ex_append) simp
  ultimately show ?thesis using chain(1) by blast
qed



lemma showOSD_blocks:
  assumes "env_CreateWindowEx env \<noteq> 0" "env_SetTimer env = 0"
    and "\<not> list_ex ends_overlay (env_inbox env)"
    and "length (env_inbox env) < fuel"
  shows "\<exists>evs. showOSD fuel env g title message duration = Some (evs, Blocked) \<and>
     count_DestroyWindow evs = 0 \<and> \<not> list_ex is_PostQuitMessage evs"
proof -
  have "win_alive (loop_start env)" "\<not> timer_set (loop_start env)" "\<not> quit_posted (loop_start env)"
    "\<not> list_ex ends_overlay (inbox (loop_start env))"
    "length (inbox (loop_start env)) < fuel"
    using assms(2-4) by simp_all
  from loop_stays_blocked [OF this] obtain rest where
    rest: "message_loop fuel g (loop_start env) = Some (rest, Blocked)"
      "count_DestroyWindow rest = 0" "\<not> list_ex is_PostQuitMessage rest"
    by blast
  let ?pfx = "create_events env @ show_events env g @ timer_events env duration"
  from rest(1) assms(1)
  have "showOSD fuel env g title message duration = Some (?pfx @ rest, Blocked)"
    by (simp add: showOSD_created)
  moreover from rest(2) prefix_no_DestroyWindow [of env g duration]
  have "count_DestroyWindow (?pfx @ rest) = 0"
    by (simp only: count_DestroyWindow_append)
  moreover from rest(3) prefix_no_PostQuitMessage [of env g duration]
  have "\<not> list_ex is_PostQuitMessage (?pfx @ rest)"
    by (simp only: list_ex_append) simp
  ultimately show ?thesis by blast
qed



lemma sample_env_simps:
  "env_CreateWindowEx sample_env \<noteq> 0"
  "env_SetTimer sample_env \<noteq> 0"
  "length (env_inbox sample_env) = 2"
  "\<not> list_ex ends_overlay (env_inbox sample_env)"
  "uint (env_screenWidth sample_env) = 1920"
  "uint (env_screenHeight sample_env) = 1080"
  by (simp_all add: sample_env_def sample_inbox_def sample_returns_def ends_overlay_def
      WM_TIMER_def WM_DESTROY_def WM_CLOSE_def WM_QUIT_def)

section \<open>The claims about the message loop\<close>

text \<open>
  C1: once the window is created (\<open>CreateWindowEx\<close> returned a handle) and the timer is
  armed (\<open>SetTimer\<close> succeeded), every call of \<open>showOSD\<close> returns, and returns \<^verbatim>\<open>nil\<close>,
  whatever title, message, positive duration and queued messages it meets: the loop
  needs at most one iteration for each queued message and two more, and its last call
  is the \<open>GetMessage\<close> that returns 0. Unless a queued message ends the overlay
  earlier, the run ends with the chain the claim names: \<open>GetMessage\<close> hands out the
  timer's message, it is dispatched, the window procedure calls \<open>DestroyWindow\<close>, the
  \<open>WM_DESTROY\<close> handler inside that call posts the quit request, \<open>GetMessage\<close> returns 0;
  before that stretch no destroy and no quit request occurs. And whenever a timer
  message is dispatched to the existing window, the calls are \<open>DestroyWindow\<close> and then
  \<open>PostQuitMessage\<close>, with the quit request pending afterwards.
\<close>

theorem showOSD_terminates:
  "env_CreateWindowEx env \<noteq> 0 \<Longrightarrow> env_SetTimer env \<noteq> 0 \<Longrightarrow> 0 < duration \<Longrightarrow>
   length (env_inbox env) + 2 \<le> fuel \<Longrightarrow>
   (\<exists>evs. showOSD fuel env g title message duration = Some (evs, Returned None) \<and>
      last evs = (GetMessage, Some 0) \<and>
      (\<not> list_ex ends_overlay (env_inbox env) \<longrightarrow>
         (\<exists>pre. evs = pre @
            [(GetMessage, Some 1),
             (TranslateMessage \<lparr> Hwnd = env_CreateWindowEx env, Message = WM_TIMER, WParam = 1,
                LParam = 0, Time = 0, Pt = \<lparr> X = 0, Y = 0 \<rparr> \<rparr>, None),
             (DispatchMessage \<lparr> Hwnd = env_CreateWindowEx env, Message = WM_TIMER, WParam = 1,
                LParam = 0, Time = 0, Pt = \<lparr> X = 0, Y = 0 \<rparr> \<rparr>, None),
             (DestroyWindow (env_CreateWindowEx env), None), (PostQuitMessage 0, None),
             (GetMessage, Some 0)] \<and>
            count_DestroyWindow pre = 0 \<and> \<not> list_ex is_PostQuitMessage pre))) \<and>
   (win_alive s \<and> Hwnd m = os_hwnd s \<and> Message m = WM_TIMER \<and> LParam m = 0 \<longrightarrow>
      fst (os_DispatchMessage g r s m)
        = [(DestroyWindow (os_hwnd s), None), (PostQuitMessage 0, None)] \<and>
      quit_posted (snd (os_DispatchMessage g r s m)))"
proof -
  assume created: "env_CreateWindowEx env \<noteq> 0" and armed: "env_SetTimer env \<noteq> 0"
    and fuel: "length (env_inbox env) + 2 \<le> fuel"
  from showOSD_returns [OF created armed fuel] obtain evs where
    run: "showOSD fuel env g title message duration = Some (evs, Returned None)"
      "last evs = (GetMessage, Some 0)"
    by blast
  from showOSD_timer_chain [OF created armed _ run(1)]
  have "\<not> list_ex ends_overlay (env_inbox env) \<longrightarrow>
         (\<exists>pre. evs = pre @
            [(GetMessage, Some 1),
             (TranslateMessage \<lparr> Hwnd = env_CreateWindowEx env, Message = WM_TIMER, WParam = 1,
                LParam = 0, Time = 0, Pt = \<lparr> X = 0, Y = 0 \<rparr> \<rparr>, None),
             (DispatchMessage \<lparr> Hwnd = env_CreateWindowEx env, Message = WM_TIMER, WParam = 1,
                LParam = 0, Time = 0, Pt = \<lparr> X = 0, Y = 0 \<rparr> \<rparr>, None),
             (DestroyWindow (env_CreateWindowEx env), None), (PostQuitMessage 0, None),
             (GetMessage, Some 0)] \<and>
            count_DestroyWindow pre = 0 \<and> \<not> list_ex is_PostQuitMessage pre)"
    by blast
  with run have first: "\<exists>evs. showOSD fuel env g title message duration = Some (evs, Returned None) \<and>
      last evs = (GetMessage, Some 0) \<and>
      (\<not> list_ex ends_overlay (env_inbox env) \<longrightarrow>
         (\<exists>pre. evs = pre @
            [(GetMessage, Some 1),
             (TranslateMessage \<lparr> Hwnd = env_CreateWindowEx env, Message = WM_TIMER, WParam = 1,
                LParam = 0, Time = 0, Pt = \<lparr> X = 0, Y = 0 \<rparr> \<rparr>, None),
             (DispatchMessage \<lparr> Hwnd = env_CreateWindowEx env, Message = WM_TIMER, WParam = 1,
                LParam = 0, Time = 0, Pt = \<lparr> X = 0, Y = 0 \<rparr> \<rparr>, None),
             (DestroyWindow (env_CreateWindowEx env), None), (PostQuitMessage 0, None),
             (GetMessage, Some 0)] \<and>
            count_DestroyWindow pre = 0 \<and> \<not> list_ex is_PostQuitMessage pre))"
    by blast
  have second: "win_alive s \<and> Hwnd m = os_hwnd s \<and> Message m = WM_TIMER \<and> LParam m = 0 \<longrightarrow>
      fst (os_DispatchMessage g r s m)
        = [(DestroyWindow (os_hwnd s), None), (PostQuitMessage 0, None)] \<and>
      quit_posted (snd (os_DispatchMessage g r s m))"
    by (simp add: os_DispatchMessage_def os_SendMessage_timer)
  from first second show ?thesis by (rule conjI)
qed

theorem showOSD_terminates_witness:
  "env_CreateWindowEx sample_env \<noteq> 0 \<and> env_SetTimer sample_env \<noteq> 0 \<and> 0 < 3 * Second \<and>
   length (env_inbox sample_env) + 2 \<le> 4 \<and>
   \<not> list_ex ends_overlay (env_inbox sample_env) \<and>
   map_option snd (showOSD 4 sample_env sample_globals ''Power Mode Changed''
     ''Switched to Quiet Mode'' (3 * Second)) = Some (Returned None) \<and>
   map_option (last \<circ> fst) (showOSD 4 sample_env sample_globals ''Power Mode Changed''
     ''Switched to Quiet Mode'' (3 * Second)) = Some (GetMessage, Some 0) \<and>
   map_option (count_DestroyWindow \<circ> fst) (showOSD 4 sample_env sample_globals
     ''Power Mode Changed'' ''Switched to Quiet Mode'' (3 * Second)) = Some 1 \<and>
   map_option (list_ex is_PostQuitMessage \<circ> fst) (showOSD 4 sample_env sample_globals
     ''Power Mode Changed'' ''Switched to Quiet Mode'' (3 * Second)) = Some True"
proof -
  have h: "env_CreateWindowEx sample_env \<noteq> 0" "env_SetTimer sample_env \<noteq> 0" "0 < 3 * Second"
    "length (env_inbox sample_env) + 2 \<le> 4"
    by (simp_all add: sample_env_simps Second_def)
  have q: "\<not> list_ex ends_overlay (env_inbox sample_env)" by (rule sample_env_simps)
  let ?tm = "\<lparr> Hwnd = env_CreateWindowEx sample_env, Message = WM_TIMER, WParam = 1,
              LParam = 0, Time = 0, Pt = \<lparr> X = 0, Y = 0 \<rparr> \<rparr>"
  from showOSD_terminates [OF h, of sample_globals "''Power Mode Changed''"
      "''Switched to Quiet Mode''"] q
  obtain evs pre where
    run: "showOSD 4 sample_env sample_globals ''Power Mode Changed''
       ''Switched to Quiet Mode'' (3 * Second) = Some (evs, Returned None)"
    and last: "last evs = (GetMessage, Some 0)"
    and chain: "evs = pre @
        [(GetMessage, Some 1), (TranslateMessage ?tm, None), (DispatchMessage ?tm, None),
         (DestroyWindow (env_CreateWindowEx sample_env), None), (PostQuitMessage 0, None),
         (GetMessage, Some 0)]"
    and pre: "count_DestroyWindow pre = 0"
    by blast
  from chain pre have "count_DestroyWindow evs = 1"
    by (simp add: count_DestroyWindow_append) (simp add: count_DestroyWindow_def)
  moreover from chain have "list_ex is_PostQuitMessage evs" by simp
  ultimately show ?thesis using h q run last by simp
qed




text \<open>
  C3, as stated, fails: the result of \<open>SetTimer\<close> is discarded. On the sample display with
  \<open>SetTimer\<close> failing, \<open>showOSD\<close> enters its loop, handles the two queued messages and then
  waits in \<open>GetMessage\<close> for ever; it has called \<open>DestroyWindow\<close> not once.
\<close>

theorem showOSD_SetTimer_failure_counterexample:
  "env_SetTimer (sample_env\<lparr>env_SetTimer := 0\<rparr>) = 0 \<and>
   map_option snd
     (showOSD 3 (sample_env\<lparr>env_SetTimer := 0\<rparr>) sample_globals ''Power Mode Changed''
        ''Switched to Quiet Mode'' (3 * Second)) = Some Blocked \<and>
   map_option (count_DestroyWindow \<circ> fst)
     (showOSD 3 (sample_env\<lparr>env_SetTimer := 0\<rparr>) sample_globals ''Power Mode Changed''
        ''Switched to Quiet Mode'' (3 * Second)) = Some 0"
proof -
  let ?env = "sample_env\<lparr>env_SetTimer := 0\<rparr>"
  have h: "env_CreateWindowEx ?env \<noteq> 0" "env_SetTimer ?env = 0"
    "\<not> list_ex ends_overlay (env_inbox ?env)"
    "length (env_inbox ?env) < 3"
    using sample_env_simps by simp_all
  from showOSD_blocks [OF h] obtain evs where
    "showOSD 3 ?env sample_globals ''Power Mode Changed''
       ''Switched to Quiet Mode'' (3 * Second) = Some (evs, Blocked)"
    "count_DestroyWindow evs = 0"
    by blast
  then show ?thesis by simp
qed

text \<open>
  C3 (amended): \<open>showOSD\<close> does not read the result of \<open>SetTimer\<close>. When arming the timer
  fails, the loop is entered all the same, no error is returned and no destroy request
  is issued; unless a message that ends the overlay reaches the queue from elsewhere
  (\<open>WM_TIMER\<close>, \<open>WM_DESTROY\<close>, \<open>WM_CLOSE\<close>, \<open>WM_QUIT\<close>, or a message whose default
  processing closes the window), the call stays in \<open>GetMessage\<close> with the window in
  place, having called neither \<open>DestroyWindow\<close> nor \<open>PostQuitMessage\<close>.
\<close>

theorem showOSD_SetTimer_failure_blocks:
  "env_CreateWindowEx env \<noteq> 0 \<Longrightarrow> env_SetTimer env = 0 \<Longrightarrow>
   \<not> list_ex ends_overlay (env_inbox env) \<Longrightarrow>
   length (env_inbox env) < fuel \<Longrightarrow>
   \<exists>evs. showOSD fuel env g title message duration = Some (evs, Blocked) \<and>
     count_DestroyWindow evs = 0 \<and> \<not> list_ex is_PostQuitMessage evs"
  by (rule showOSD_blocks)

theorem showOSD_SetTimer_failure_blocks_witness:
  "env_CreateWindowEx (sample_env\<lparr>env_SetTimer := 0\<rparr>) \<noteq> 0 \<and>
   env_SetTimer (sample_env\<lparr>env_SetTimer := 0\<rparr>) = 0 \<and>
   \<not> list_ex ends_overlay (env_inbox (sample_env\<lparr>env_SetTimer := 0\<rparr>)) \<and>
   length (env_inbox (sample_env\<lparr>env_SetTimer := 0\<rparr>)) < 7 \<and>
   map_option snd
     (showOSD 7 (sample_env\<lparr>env_SetTimer := 0\<rparr>) sample_globals [] [] Second) = Some Blocked"
proof -
  let ?env = "sample_env\<lparr>env_SetTimer := 0\<rparr>"
  have h: "env_CreateWindowEx ?env \<noteq> 0" "env_SetTimer ?env = 0"
    "\<not> list_ex ends_overlay (env_inbox ?env)"
    "length (env_inbox ?env) < 7"
    using sample_env_simps by simp_all
  from showOSD_SetTimer_failure_blocks [OF h] obtain evs where
    "showOSD 7 ?env sample_globals [] [] Second = Some (evs, Blocked)"
    by blast
  with h show ?thesis by simp
qed

lemma wndProc_no_KillTimer:
  "\<not> list_ex is_KillTimer (fst (wndProcCallback g r hwnd msg wParam lParam))"
proof -
  consider "msg = WM_PAINT" | "msg = WM_TIMER" | "msg = WM_DESTROY"
    | "msg \<noteq> WM_PAINT" "msg \<noteq> WM_TIMER" "msg \<noteq> WM_DESTROY"
    by blast
  then show ?thesis
  proof cases
    case 1
    then show ?thesis by (simp add: wndProc_paint)
  next
    case 2
    then show ?thesis by (simp add: wndProc_timer)
  next
    case 3
    then show ?thesis by (simp add: wndProc_destroy)
  next
    case 4
    then show ?thesis by (simp add: wndProc_default)
  qed
qed

text \<open>
  C2, as stated, fails: the \<open>WM_TIMER\<close> branch of the window procedure makes one call,
  \<open>DestroyWindow\<close>, and no \<open>KillTimer\<close> call; \<open>procKillTimer\<close> is loaded and never used.
\<close>

theorem wndProc_timer_KillTimer_counterexample:
  "fst (wndProcCallback \<lparr> globalMessage = ''Switched to Quiet Mode'',
          globalTitle = ''Power Mode Changed'' \<rparr> no_returns 42 WM_TIMER 1 0)
     = [(DestroyWindow 42, None)] \<and>
   \<not> list_ex is_KillTimer
     (fst (wndProcCallback \<lparr> globalMessage = ''Switched to Quiet Mode'',
          globalTitle = ''Power Mode Changed'' \<rparr> no_returns 42 WM_TIMER 1 0))"
  by (simp add: wndProc_timer)

text \<open>
  C2 (amended): when the window procedure handles \<open>WM_TIMER\<close> it issues exactly one
  call, \<open>DestroyWindow\<close> on the window it was called for, and returns 0; for no message
  does it call \<open>KillTimer\<close>. The timer is cancelled as the window is destroyed, by
  \<open>DestroyWindow\<close> itself: when the timer's message has been dispatched to the existing
  window, the calls made are \<open>DestroyWindow\<close> and, from the \<open>WM_DESTROY\<close> handler inside
  it, \<open>PostQuitMessage\<close>; afterwards the window has no timer and does not exist, and in
  whatever remains of the loop only the loop's own calls occur, so the window procedure
  is not called again for the destroyed window.
\<close>

theorem wndProc_timer_only_destroys:
  "wndProcCallback g r hwnd WM_TIMER wParam lParam = ([(DestroyWindow hwnd, None)], 0) \<and>
   \<not> list_ex is_KillTimer (fst (wndProcCallback g r' hwnd' msg wParam' lParam')) \<and>
   (win_alive s \<and> Hwnd m = os_hwnd s \<and> Message m = WM_TIMER \<and> LParam m = 0 \<and>
    os_DispatchMessage g r s m = (t, s2) \<longrightarrow>
      t = [(DestroyWindow (os_hwnd s), None), (PostQuitMessage 0, None)] \<and>
      \<not> timer_set s2 \<and> \<not> win_alive s2 \<and>
      (\<forall>n evs out. message_loop n g s2 = Some (evs, out) \<longrightarrow> list_all is_loop_call evs))"
proof -
  have after: "t = [(DestroyWindow (os_hwnd s), None), (PostQuitMessage 0, None)] \<and>
      \<not> timer_set s2 \<and> \<not> win_alive s2 \<and>
      (\<forall>n evs out. message_loop n g s2 = Some (evs, out) \<longrightarrow> list_all is_loop_call evs)"
    if live: "win_alive s" "Hwnd m = os_hwnd s" "Message m = WM_TIMER" "LParam m = 0"
      and send: "os_DispatchMessage g r s m = (t, s2)"
  proof -
    from live have "os_DispatchMessage g r s m =
        ([(DestroyWindow (os_hwnd s), None), (PostQuitMessage 0, None)],
         s\<lparr>win_alive := False, timer_set := False, quit_posted := True,
           inbox := filter (\<lambda>d. Hwnd (d_msg d) \<noteq> os_hwnd s) (inbox s)\<rparr>)"
      by (simp add: os_DispatchMessage_def os_SendMessage_timer)
    with send have t: "t = [(DestroyWindow (os_hwnd s), None), (PostQuitMessage 0, None)]"
      and gone: "\<not> timer_set s2" "\<not> win_alive s2"
      by auto
    from loop_dead [OF gone(2)]
    have "\<forall>n evs out. message_loop n g s2 = Some (evs, out) \<longrightarrow> list_all is_loop_call evs"
      by blast
    with t gone show ?thesis by simp
  qed
  from wndProc_timer [of g r hwnd wParam lParam]
    wndProc_no_KillTimer [of g r' hwnd' msg wParam' lParam'] after
  show ?thesis by blast
qed

theorem wndProc_timer_only_destroys_witness:
  "win_alive (loop_start sample_env) \<and> timer_set (loop_start sample_env) \<and>
   fst (os_DispatchMessage sample_globals no_returns (loop_start sample_env)
          \<lparr> Hwnd = 0x2A, Message = WM_TIMER, WParam = 1, LParam = 0, Time = 0,
            Pt = \<lparr> X = 0, Y = 0 \<rparr> \<rparr>)
     = [(DestroyWindow 0x2A, None), (PostQuitMessage 0, None)] \<and>
   \<not> timer_set (snd (os_DispatchMessage sample_globals no_returns (loop_start sample_env)
          \<lparr> Hwnd = 0x2A, Message = WM_TIMER, WParam = 1, LParam = 0, Time = 0,
            Pt = \<lparr> X = 0, Y = 0 \<rparr> \<rparr>)) \<and>
   \<not> win_alive (snd (os_DispatchMessage sample_globals no_returns (loop_start sample_env)
          \<lparr> Hwnd = 0x2A, Message = WM_TIMER, WParam = 1, LParam = 0, Time = 0,
            Pt = \<lparr> X = 0, Y = 0 \<rparr> \<rparr>))"
proof -
  let ?m = "\<lparr> Hwnd = 0x2A, Message = WM_TIMER, WParam = 1, LParam = 0, Time = 0,
            Pt = \<lparr> X = 0, Y = 0 \<rparr> \<rparr> :: MSG"
  let ?s = "loop_start sample_env"
  let ?run = "os_DispatchMessage sample_globals no_returns ?s ?m"
  have h: "win_alive ?s" "timer_set ?s" "Hwnd ?m = os_hwnd ?s" "Message ?m = WM_TIMER"
    "LParam ?m = 0" "os_hwnd ?s = 0x2A"
    by (simp_all add: sample_env_def)
  have "?run = (fst ?run, snd ?run)" by simp
  with wndProc_timer_only_destroys
    [of sample_globals no_returns _ _ _ _ _ _ _ _ ?s ?m "fst ?run" "snd ?run"] h
  have "fst ?run = [(DestroyWindow (os_hwnd ?s), None), (PostQuitMessage 0, None)]"
    "\<not> timer_set (snd ?run)" "\<not> win_alive (snd ?run)"
    by blast+
  with h show ?thesis by simp
qed

section \<open>The claims about window creation\<close>

lemma create_events_no_GetMessage:
  "\<not> list_ex is_GetMessage (create_events env)"
  by (simp add: create_events_def)

lemma showOSD_error_iff:
  "(\<exists>evs e. showOSD fuel env g title message duration = Some (evs, Returned (Some e)))
     \<longleftrightarrow> env_CreateWindowEx env = 0"
proof (cases "env_CreateWindowEx env = 0")
  case True
  then show ?thesis by (simp add: showOSD_failed)
next
  case False
  have "showOSD fuel env g title message duration \<noteq> Some (evs, Returned (Some e))" for evs e
  proof
    assume run: "showOSD fuel env g title message duration = Some (evs, Returned (Some e))"
    from showOSD_created_Some [OF False run] obtain rest where
      "message_loop fuel g (loop_start env) = Some (rest, Returned (Some e))"
      by blast
    from loop_no_error [OF this] show False by simp
  qed
  with False show ?thesis by blast
qed

lemma showOSD_registration:
  "map_option (apfst tl) (showOSD fuel (env\<lparr>env_RegisterClassEx := reg\<rparr>) g title message duration)
     = map_option (apfst tl) (showOSD fuel env g title message duration)"
proof -
  let ?env = "env\<lparr>env_RegisterClassEx := reg\<rparr>"
  have parts: "tl (create_events ?env) = tl (create_events env)"
    "create_events ?env \<noteq> []" "create_events env \<noteq> []"
    "show_events ?env g = show_events env g"
    "timer_events ?env duration = timer_events env duration"
    "loop_start ?env = loop_start env"
    by (simp_all add: create_events_def show_events_def timer_events_def loop_start_def)
  show ?thesis
  proof (cases "env_CreateWindowEx env = 0")
    case True
    then have "env_CreateWindowEx ?env = 0" by simp
    with True parts show ?thesis by (simp add: showOSD_failed)
  next
    case False
    then have "env_CreateWindowEx ?env \<noteq> 0" by simp
    with False parts(1-5) show ?thesis
      by (simp add: showOSD_created parts(6) split: option.split)
  qed
qed

text \<open>
  C4: \<open>showOSD\<close> returns an error exactly when \<open>CreateWindowEx\<close> yields the null handle.
  Then the events are the four calls up to \<open>CreateWindowEx\<close>, the error is
  \<^verbatim>\<open>CreateWindowEx failed\<close> and \<open>GetMessage\<close> is never called. The result of
  \<open>RegisterClassEx\<close>, zero or not, changes nothing: apart from the first event, which
  records that result, the run is the same.
\<close>

theorem showOSD_fails_iff_no_window:
  "((\<exists>evs e. showOSD fuel env g title message duration = Some (evs, Returned (Some e)))
      \<longleftrightarrow> env_CreateWindowEx env = 0) \<and>
   (env_CreateWindowEx env = 0 \<longrightarrow>
      showOSD fuel env g title message duration
        = Some (create_events env, Returned (Some ''CreateWindowEx failed'')) \<and>
      \<not> list_ex is_GetMessage (create_events env)) \<and>
   map_option (apfst tl) (showOSD fuel (env\<lparr>env_RegisterClassEx := reg\<rparr>) g title message duration)
     = map_option (apfst tl) (showOSD fuel env g title message duration)"
  using showOSD_error_iff [of fuel env g title message duration]
    showOSD_failed [of env fuel g title message duration]
    create_events_no_GetMessage [of env]
    showOSD_registration [of fuel reg env g title message duration]
  by blast

theorem showOSD_fails_iff_no_window_witness:
  "env_CreateWindowEx (sample_env\<lparr>env_CreateWindowEx := 0\<rparr>) = 0 \<and>
   map_option snd
     (showOSD 0 (sample_env\<lparr>env_CreateWindowEx := 0\<rparr>) sample_globals ''Power Mode Changed''
        ''Switched to Quiet Mode'' (3 * Second))
     = Some (Returned (Some ''CreateWindowEx failed'')) \<and>
   map_option (length \<circ> fst)
     (showOSD 0 (sample_env\<lparr>env_CreateWindowEx := 0\<rparr>) sample_globals ''Power Mode Changed''
        ''Switched to Quiet Mode'' (3 * Second))
     = Some 4"
proof -
  let ?env = "sample_env\<lparr>env_CreateWindowEx := 0\<rparr>"
  have h: "env_CreateWindowEx ?env = 0" by simp
  with showOSD_fails_iff_no_window
    [of 0 ?env sample_globals "''Power Mode Changed''" "''Switched to Quiet Mode''" "3 * Second"]
  have "showOSD 0 ?env sample_globals ''Power Mode Changed'' ''Switched to Quiet Mode'' (3 * Second)
      = Some (create_events ?env, Returned (Some ''CreateWindowEx failed''))"
    by blast
  with h show ?thesis by (simp add: create_events_def)
qed

lemma showOSD_starts_with_create_events:
  assumes "showOSD fuel env g title message duration = Some (evs, out)"
  shows "take 4 evs = create_events env"
proof (cases "env_CreateWindowEx env = 0")
  case True
  with assms show ?thesis by (auto simp: showOSD_failed create_events_def)
next
  case False
  from showOSD_created_Some [OF False assms] obtain rest where
    "evs = create_events env @ show_events env g @ timer_events env duration @ rest"
    by blast
  then show ?thesis by (simp add: create_events_def)
qed

text \<open>
  C7: for every width \<open>W\<close> and height \<open>H\<close> that \<open>GetSystemMetrics\<close> reports (32-bit
  values), the window is created 400 wide and 100 high, at \<open>x = (W - 400) / 2\<close> with
  Go's division, which for \<open>W \<ge> 400\<close> leaves margins left and right that differ by at
  most one pixel, and at \<open>y = H - \<lfloor>0.15 H\<rfloor>\<close>: the binary64 product
  \<^verbatim>\<open>float64(screenHeight)*0.15\<close>, truncated, is exactly \<open>\<lfloor>3 H / 20\<rfloor>\<close>.
\<close>

theorem showOSD_window_geometry:
  "uint (env_screenWidth env) < 2 ^ 32 \<Longrightarrow> uint (env_screenHeight env) < 2 ^ 32 \<Longrightarrow>
   showOSD fuel env g title message duration = Some (evs, out) \<Longrightarrow>
   take 4 evs =
     [(RegisterClassEx (Some ''LLTHelperOSD'') (env_instance env), Some (env_RegisterClassEx env)),
      (GetSystemMetrics SM_CXSCREEN, Some (env_screenWidth env)),
      (GetSystemMetrics SM_CYSCREEN, Some (env_screenHeight env)),
      (CreateWindowEx (WS_EX_LAYERED OR WS_EX_TOPMOST OR WS_EX_TOOLWINDOW)
         (Some ''LLTHelperOSD'') (Some ''LLT Helper OSD'') WS_POPUP
         (word_of_int (go_quo (uint (env_screenWidth env) - 400) 2))
         (word_of_int (uint (env_screenHeight env) - 3 * uint (env_screenHeight env) div 20))
         400 100 0 0 (env_instance env) 0, Some (env_CreateWindowEx env))] \<and>
   (400 \<le> uint (env_screenWidth env) \<longrightarrow>
      2 * go_quo (uint (env_screenWidth env) - 400) 2 \<le> uint (env_screenWidth env) - 400 \<and>
      uint (env_screenWidth env) - 400 \<le> 2 * go_quo (uint (env_screenWidth env) - 400) 2 + 1)"
proof -
  assume w: "uint (env_screenWidth env) < 2 ^ 32" and h: "uint (env_screenHeight env) < 2 ^ 32"
    and run: "showOSD fuel env g title message duration = Some (evs, out)"
  have "take 4 evs = create_events env"
    using run by (rule showOSD_starts_with_create_events)
  also have "create_events env =
     [(RegisterClassEx (Some ''LLTHelperOSD'') (env_instance env), Some (env_RegisterClassEx env)),
      (GetSystemMetrics SM_CXSCREEN, Some (env_screenWidth env)),
      (GetSystemMetrics SM_CYSCREEN, Some (env_screenHeight env)),
      (CreateWindowEx (WS_EX_LAYERED OR WS_EX_TOPMOST OR WS_EX_TOOLWINDOW)
         (Some ''LLTHelperOSD'') (Some ''LLT Helper OSD'') WS_POPUP
         (word_of_int (go_quo (uint (env_screenWidth env) - 400) 2))
         (word_of_int (uint (env_screenHeight env) - 3 * uint (env_screenHeight env) div 20))
         400 100 0 0 (env_instance env) 0, Some (env_CreateWindowEx env))]"
    by (simp add: create_events_def osdX_of_small [OF w] osdY_of_small [OF h]
        UTF16PtrFromString_def)
  finally show ?thesis using go_quo_2_centred [of "uint (env_screenWidth env) - 400"] by simp
qed

theorem showOSD_window_geometry_witness:
  "uint (env_screenWidth sample_env) < 2 ^ 32 \<and> uint (env_screenHeight sample_env) < 2 ^ 32 \<and>
   map_option ((\<lambda>evs. evs ! 3) \<circ> fst)
     (showOSD 4 sample_env sample_globals ''Power Mode Changed'' ''Switched to Quiet Mode''
        (3 * Second))
   = Some (CreateWindowEx 0x80088 (Some ''LLTHelperOSD'') (Some ''LLT Helper OSD'') 0x80000000
             760 918 400 100 0 0 0x7FF0 0, Some 0x2A)"
proof -
  have h: "uint (env_screenWidth sample_env) < 2 ^ 32" "uint (env_screenHeight sample_env) < 2 ^ 32"
    by (simp_all add: sample_env_simps)
  have r: "env_CreateWindowEx sample_env \<noteq> 0" "env_SetTimer sample_env \<noteq> 0"
    "length (env_inbox sample_env) + 2 \<le> 4"
    by (simp_all add: sample_env_simps)
  from showOSD_returns [OF r] obtain evs where
    run: "showOSD 4 sample_env sample_globals ''Power Mode Changed''
       ''Switched to Quiet Mode'' (3 * Second) = Some (evs, Returned None)"
    by blast
  have "evs ! 3 = take 4 evs ! 3" by simp
  also from showOSD_window_geometry [OF h run]
  have "take 4 evs ! 3 = (CreateWindowEx 0x80088 (Some ''LLTHelperOSD'') (Some ''LLT Helper OSD'')
      0x80000000 760 918 400 100 0 0 0x7FF0 0, Some 0x2A)"
    by (simp add: sample_env_simps go_quo_def WS_EX_LAYERED_def WS_EX_TOPMOST_def
        WS_EX_TOOLWINDOW_def WS_POPUP_def) (simp add: sample_env_def)
  finally show ?thesis using h run by simp
qed

section \<open>The claims about the two entry points\<close>











end
